theory Spec2Isabelle
  imports Complex_Main
begin

section \<open>Python strings\<close>

text \<open>
  The parser of \<^verbatim>\<open>src/parser.py\<close> works on the text that pdfplumber extracts from each
  page. A Python \<^verbatim>\<open>str\<close> is modelled as a \<^typ>\<open>string\<close>, one \<^typ>\<open>char\<close> per code
  point, so the model covers text over the code points 0 to 255 (Latin-1). The character
  classes below are those of CPython 3 on that range: \<^verbatim>\<open>str.isspace\<close> (which is also
  what \<^verbatim>\<open>str.split()\<close>, \<^verbatim>\<open>str.strip()\<close> and the regular expression \<^verbatim>\<open>\s\<close> use),
  the decimal digits of \<^verbatim>\<open>\d\<close>, the word characters of \<^verbatim>\<open>\w\<close> and \<^verbatim>\<open>\b\<close>, and the
  case mapping of \<^verbatim>\<open>str.lower\<close> and of \<^verbatim>\<open>re.IGNORECASE\<close>.
\<close>

definition py_isspace :: "char \<Rightarrow> bool" where
  "py_isspace c = (let n = (of_char c :: nat) in
     (9 \<le> n \<and> n \<le> 13) \<or> (28 \<le> n \<and> n \<le> 32) \<or> n = 133 \<or> n = 160)"

definition py_isdecimal :: "char \<Rightarrow> bool" where
  "py_isdecimal c = (let n = (of_char c :: nat) in 48 \<le> n \<and> n \<le> 57)"

definition py_isword :: "char \<Rightarrow> bool" where
  "py_isword c = (let n = (of_char c :: nat) in
     (48 \<le> n \<and> n \<le> 57) \<or> (65 \<le> n \<and> n \<le> 90) \<or> n = 95 \<or> (97 \<le> n \<and> n \<le> 122) \<or>
     n = 170 \<or> n = 178 \<or> n = 179 \<or> n = 181 \<or> n = 185 \<or> n = 186 \<or>
     (188 \<le> n \<and> n \<le> 190) \<or> (192 \<le> n \<and> n \<le> 214) \<or> (216 \<le> n \<and> n \<le> 246) \<or>
     248 \<le> n)"

text \<open>
  The upper-case letters of Latin-1 are A to Z and 0xC0 to 0xDE without the multiplication
  sign 0xD7. The lower-case letter is 32 code points higher; bit 5 is clear in each of the
  upper-case letters, so adding 32 sets it.
\<close>

definition is_upper :: "char \<Rightarrow> bool" where
  "is_upper c = (let n = (of_char c :: nat) in
     (65 \<le> n \<and> n \<le> 90) \<or> (192 \<le> n \<and> n \<le> 214) \<or> (216 \<le> n \<and> n \<le> 222))"

definition lower_char :: "char \<Rightarrow> char" where
  "lower_char c =
     (if is_upper c
      then Char (digit0 c) (digit1 c) (digit2 c) (digit3 c) (digit4 c) True (digit6 c) (digit7 c)
      else c)"

text \<open>\<^verbatim>\<open>s.lower()\<close>\<close>

definition py_lower :: "string \<Rightarrow> string" where
  "py_lower s = map lower_char s"

text \<open>\<^verbatim>\<open>s.startswith(p)\<close>\<close>

fun startswith :: "string \<Rightarrow> string \<Rightarrow> bool" where
  "startswith s [] = True"
| "startswith [] (p # ps) = False"
| "startswith (c # cs) (p # ps) = (if c = p then startswith cs ps else False)"

text \<open>\<^verbatim>\<open>sub in s\<close>: \<^verbatim>\<open>sub\<close> occurs in \<^verbatim>\<open>s\<close> as a contiguous run.\<close>

fun py_in :: "string \<Rightarrow> string \<Rightarrow> bool" where
  "py_in sub [] = (sub = [])"
| "py_in sub (c # cs) = (if startswith (c # cs) sub then True else py_in sub cs)"

text \<open>\<^verbatim>\<open>s.strip()\<close>\<close>

definition py_strip :: "string \<Rightarrow> string" where
  "py_strip s = rev (dropWhile py_isspace (rev (dropWhile py_isspace s)))"

text \<open>\<^verbatim>\<open>s.replace(c, '')\<close> for a single character \<^verbatim>\<open>c\<close>\<close>

definition remove_char :: "char \<Rightarrow> string \<Rightarrow> string" where
  "remove_char c s = filter (\<lambda>x. x \<noteq> c) s"

text \<open>\<^verbatim>\<open>s.split('\n')\<close>: empty lines are kept, and the empty text has one empty line.\<close>

fun split_newline :: "string \<Rightarrow> string list" where
  "split_newline [] = [[]]"
| "split_newline (c # cs) =
     (if c = CHR 0x0A then [] # split_newline cs
      else (case split_newline cs of [] \<Rightarrow> [[c]] | l # ls \<Rightarrow> (c # l) # ls))"

text \<open>
  \<^verbatim>\<open>s.split()\<close>: the maximal runs of characters that are not whitespace. The first
  argument is the token read so far.
\<close>

fun split_ws :: "string \<Rightarrow> string \<Rightarrow> string list" where
  "split_ws tok [] = (if tok = [] then [] else [tok])"
| "split_ws tok (c # cs) =
     (if py_isspace c then (if tok = [] then split_ws [] cs else tok # split_ws [] cs)
      else split_ws (tok @ [c]) cs)"

definition py_split :: "string \<Rightarrow> string list" where
  "py_split s = split_ws [] s"

text \<open>\<^verbatim>\<open>os.path.basename\<close> (POSIX): what follows the last slash.\<close>

definition basename :: "string \<Rightarrow> string" where
  "basename p = rev (takeWhile (\<lambda>c. c \<noteq> CHR ''/'') (rev p))"

section \<open>Regular expressions\<close>

text \<open>
  \<^verbatim>\<open>re.search(pattern, s)\<close> tries the pattern at each position of \<^verbatim>\<open>s\<close> from the left
  and returns the first match. A pattern is modelled by its matcher at one position: the
  matcher gets the character before the position (for \<^verbatim>\<open>\b\<close>) and the text from the
  position on, and returns what the source reads from the match object.
\<close>

fun re_search :: "(char option \<Rightarrow> string \<Rightarrow> 'a option) \<Rightarrow> char option \<Rightarrow> string \<Rightarrow> 'a option" where
  "re_search m prev [] = m prev []"
| "re_search m prev (c # cs) =
     (case m prev (c # cs) of Some r \<Rightarrow> Some r | None \<Rightarrow> re_search m (Some c) cs)"

text \<open>
  The literal characters of a pattern, matched one after the other: what is left of the
  text after them, or \<open>None\<close> at the first character that differs. Under
  \<^verbatim>\<open>re.IGNORECASE\<close> two characters agree when their lower-case forms are equal.
\<close>

fun match_literal :: "string \<Rightarrow> string \<Rightarrow> string option" where
  "match_literal [] s = Some s"
| "match_literal (p # ps) [] = None"
| "match_literal (p # ps) (c # cs) = (if c = p then match_literal ps cs else None)"

fun match_literal_ignorecase :: "string \<Rightarrow> string \<Rightarrow> string option" where
  "match_literal_ignorecase [] s = Some s"
| "match_literal_ignorecase (p # ps) [] = None"
| "match_literal_ignorecase (p # ps) (c # cs) =
     (if lower_char c = lower_char p then match_literal_ignorecase ps cs else None)"

text \<open>\<^verbatim>\<open>(\d{4})\<close>, returning group 1\<close>

definition match_year :: "char option \<Rightarrow> string \<Rightarrow> string option" where
  "match_year prev s =
     (if 4 \<le> length s \<and> list_all py_isdecimal (take 4 s) then Some (take 4 s) else None)"

text \<open>
  \<^verbatim>\<open>Annual Report\s+(\d{4})\<close>, returning group 1. A digit is not whitespace, so the only
  way \<^verbatim>\<open>\s+\<close> can be followed by a digit is to take the whole run of whitespace.
\<close>

definition match_annual_report :: "char option \<Rightarrow> string \<Rightarrow> string option" where
  "match_annual_report prev s =
     (case match_literal ''Annual Report'' s of
        None \<Rightarrow> None
      | Some r \<Rightarrow>
          (let ws = takeWhile py_isspace r;
               r1 = dropWhile py_isspace r
           in if ws \<noteq> [] \<and> 4 \<le> length r1 \<and> list_all py_isdecimal (take 4 r1)
              then Some (take 4 r1) else None))"

text \<open>
  \<^verbatim>\<open>rf'{re.escape(asset_name)}\s+(\d+)%'\<close> under \<^verbatim>\<open>re.IGNORECASE\<close>, returning group 1:
  the characters of the name, each compared without regard to case, then the whole run of
  whitespace (at least one character), then the whole run of digits (at least one), then
  a percent sign. Nothing is required of the character before the name.
\<close>

definition match_asset_percentage :: "string \<Rightarrow> char option \<Rightarrow> string \<Rightarrow> string option" where
  "match_asset_percentage asset_name prev s =
     (case match_literal_ignorecase asset_name s of
        None \<Rightarrow> None
      | Some r \<Rightarrow>
          (let ws = takeWhile py_isspace r;
               r1 = dropWhile py_isspace r;
               ds = takeWhile py_isdecimal r1;
               r2 = dropWhile py_isdecimal r1
           in if ws \<noteq> [] \<and> ds \<noteq> [] \<and> startswith r2 ''%'' then Some ds else None))"

text \<open>
  \<^verbatim>\<open>re.findall(r'\d+', line)\<close>: the maximal runs of digits, from left to right. The
  first argument is the run read so far.
\<close>

fun digit_runs :: "string \<Rightarrow> string \<Rightarrow> string list" where
  "digit_runs run [] = (if run = [] then [] else [run])"
| "digit_runs run (c # cs) =
     (if py_isdecimal c then digit_runs (run @ [c]) cs
      else (if run = [] then digit_runs [] cs else run # digit_runs [] cs))"

definition findall_digits :: "string \<Rightarrow> string list" where
  "findall_digits line = digit_runs [] line"

text \<open>
  \<^verbatim>\<open>\b1[34]\d{3}\b\<close>, returning the match: five digits, the first 1 and the second 3 or
  4, with no word character before or after them.
\<close>

definition at_boundary :: "char option \<Rightarrow> bool" where
  "at_boundary neighbour = (case neighbour of None \<Rightarrow> True | Some c \<Rightarrow> \<not> py_isword c)"

definition match_five_digit :: "char option \<Rightarrow> string \<Rightarrow> string option" where
  "match_five_digit prev s =
     (if 5 \<le> length s \<and> at_boundary prev \<and> s ! 0 = CHR ''1'' \<and>
         (s ! 1 = CHR ''3'' \<or> s ! 1 = CHR ''4'') \<and>
         py_isdecimal (s ! 2) \<and> py_isdecimal (s ! 3) \<and> py_isdecimal (s ! 4) \<and>
         at_boundary (if length s = 5 then None else Some (s ! 5))
      then Some (take 5 s) else None)"

section \<open>Python floats\<close>

text \<open>
  A Python \<^verbatim>\<open>float\<close> is a finite number, an infinity or NaN. Finite values are modelled
  as exact reals: the rounding of binary64, the overflow of a huge literal to infinity and
  the underflow of a tiny one to zero are not represented. The figures of the reports are
  whole numbers far below \<open>2 ^ 53\<close>, where float arithmetic is exact.
\<close>

datatype pyfloat = Finite real | PosInf | NegInf | NaN

fun fneg :: "pyfloat \<Rightarrow> pyfloat" where
  "fneg (Finite a) = Finite (- a)"
| "fneg PosInf = NegInf"
| "fneg NegInf = PosInf"
| "fneg NaN = NaN"

fun fadd :: "pyfloat \<Rightarrow> pyfloat \<Rightarrow> pyfloat" where
  "fadd (Finite a) (Finite b) = Finite (a + b)"
| "fadd (Finite a) PosInf = PosInf"
| "fadd (Finite a) NegInf = NegInf"
| "fadd PosInf (Finite b) = PosInf"
| "fadd PosInf PosInf = PosInf"
| "fadd PosInf NegInf = NaN"
| "fadd NegInf (Finite b) = NegInf"
| "fadd NegInf PosInf = NaN"
| "fadd NegInf NegInf = NegInf"
| "fadd NaN y = NaN"
| "fadd x NaN = NaN"

definition fsub :: "pyfloat \<Rightarrow> pyfloat \<Rightarrow> pyfloat" where
  "fsub x y = fadd x (fneg y)"

fun fabs :: "pyfloat \<Rightarrow> pyfloat" where
  "fabs (Finite a) = Finite \<bar>a\<bar>"
| "fabs PosInf = PosInf"
| "fabs NegInf = PosInf"
| "fabs NaN = NaN"

text \<open>\<^verbatim>\<open>x <= y\<close> and \<^verbatim>\<open>x < y\<close>: every comparison with NaN is false.\<close>

fun fle :: "pyfloat \<Rightarrow> pyfloat \<Rightarrow> bool" where
  "fle (Finite a) (Finite b) = (a \<le> b)"
| "fle (Finite a) PosInf = True"
| "fle (Finite a) NegInf = False"
| "fle PosInf (Finite b) = False"
| "fle PosInf PosInf = True"
| "fle PosInf NegInf = False"
| "fle NegInf (Finite b) = True"
| "fle NegInf PosInf = True"
| "fle NegInf NegInf = True"
| "fle NaN y = False"
| "fle x NaN = False"

fun flt :: "pyfloat \<Rightarrow> pyfloat \<Rightarrow> bool" where
  "flt (Finite a) (Finite b) = (a < b)"
| "flt (Finite a) PosInf = True"
| "flt (Finite a) NegInf = False"
| "flt PosInf y = False"
| "flt NegInf (Finite b) = True"
| "flt NegInf PosInf = True"
| "flt NegInf NegInf = False"
| "flt NaN y = False"
| "flt x NaN = False"

text \<open>\<^verbatim>\<open>bool(x)\<close>: only zero is false.\<close>

definition truthy :: "pyfloat \<Rightarrow> bool" where
  "truthy x = (x \<noteq> Finite 0)"

text \<open>\<^verbatim>\<open>sum(xs)\<close>: the floats are added from the left, starting from 0.\<close>

definition py_sum :: "pyfloat list \<Rightarrow> pyfloat" where
  "py_sum xs = foldl fadd (Finite 0) xs"

subsection \<open>\<^verbatim>\<open>float(s)\<close>\<close>

text \<open>
  \<^verbatim>\<open>float\<close> of a string strips the whitespace it knows at both ends (the control
  characters 0x1C to 0x1F are not part of it), allows an underscore between two digits,
  and then reads an optional sign followed by \<^verbatim>\<open>inf\<close>, \<^verbatim>\<open>infinity\<close> or \<^verbatim>\<open>nan\<close> in any
  case, or by a decimal number: digits with an optional point, at least one digit in all,
  and an optional exponent. Anything else raises \<^verbatim>\<open>ValueError\<close>, which is \<open>None\<close> here.
\<close>

definition float_isspace :: "char \<Rightarrow> bool" where
  "float_isspace c = (let n = (of_char c :: nat) in
     (9 \<le> n \<and> n \<le> 13) \<or> n = 32 \<or> n = 133 \<or> n = 160)"

definition float_strip :: "string \<Rightarrow> string" where
  "float_strip s = rev (dropWhile float_isspace (rev (dropWhile float_isspace s)))"

fun underscores_ok :: "char \<Rightarrow> string \<Rightarrow> bool" where
  "underscores_ok prev [] = (prev \<noteq> CHR ''_'')"
| "underscores_ok prev (c # cs) =
     ((if c = CHR ''_'' then py_isdecimal prev
       else if prev = CHR ''_'' then py_isdecimal c else True) \<and>
      underscores_ok c cs)"

definition digit_val :: "char \<Rightarrow> nat" where
  "digit_val c = of_char c - 48"

definition dec_value :: "string \<Rightarrow> nat" where
  "dec_value ds = foldl (\<lambda>a c. 10 * a + digit_val c) 0 ds"

definition split_sign :: "string \<Rightarrow> bool \<times> string" where
  "split_sign s =
     (case s of [] \<Rightarrow> (False, [])
      | c # r \<Rightarrow> if c = CHR ''-'' then (True, r) else if c = CHR ''+'' then (False, r)
                 else (False, s))"

definition parse_decimal :: "string \<Rightarrow> real option" where
  "parse_decimal s =
     (let ip = takeWhile py_isdecimal s;
          r1 = dropWhile py_isdecimal s;
          fp = (if startswith r1 ''.'' then takeWhile py_isdecimal (tl r1) else []);
          r2 = (if startswith r1 ''.'' then dropWhile py_isdecimal (tl r1) else r1);
          mant = real (dec_value (ip @ fp)) / 10 ^ length fp
      in if ip = [] \<and> fp = [] then None
         else if r2 = [] then Some mant
         else if hd r2 = CHR ''e'' \<or> hd r2 = CHR ''E'' then
           (let (neg, ds) = split_sign (tl r2)
            in if ds \<noteq> [] \<and> list_all py_isdecimal ds
               then Some (if neg then mant / 10 ^ dec_value ds else mant * 10 ^ dec_value ds)
               else None)
         else None)"

definition py_float :: "string \<Rightarrow> pyfloat option" where
  "py_float s =
     (let t = float_strip s in
      if \<not> underscores_ok (CHR 0x00) t then None
      else
        (let (neg, body) = split_sign (remove_char (CHR ''_'') t) in
         if py_lower body = ''inf'' \<or> py_lower body = ''infinity'' then
           Some (if neg then NegInf else PosInf)
         else if py_lower body = ''nan'' then Some NaN
         else (case parse_decimal body of
                 None \<Rightarrow> None
               | Some r \<Rightarrow> Some (Finite (if neg then - r else r)))))"

text \<open>\<^verbatim>\<open>clean_number\<close> (\<^verbatim>\<open>src/parser.py\<close>, lines 236 to 249)\<close>

definition clean_number :: "string \<Rightarrow> pyfloat option" where
  "clean_number value_str =
     (if value_str = [] \<or> value_str = ''nan'' then None
      else py_float (py_strip (remove_char (CHR 0xA0)
             (remove_char (CHR '','') (remove_char (CHR '' '') value_str)))))"

section \<open>Configuration (\<^verbatim>\<open>src/config.py\<close>)\<close>

definition PDF_CHART_KEYWORDS :: "string list" where
  "PDF_CHART_KEYWORDS =
     [''The composition of assets breaks down as follows:'',
      ''The composition of assets'',
      ''composition of assets'']"

text \<open>A \<^verbatim>\<open>dict\<close> is an association list in insertion order, with distinct keys.\<close>

definition PDF_ASSET_NAMES :: "(string \<times> string list) list" where
  "PDF_ASSET_NAMES =
     [(''INFRASTRUCTURE'', [''Infrastructure investments'', ''Infrastructure'']),
      (''CASH'', [''Liquidity deposits'', ''Liquidity / Receivables'', ''Liquidity'',
                 ''Receivables'']),
      (''MORTGAGES'', [''Mortgages'']),
      (''BONDS'', [''Bonds'']),
      (''EQUITIES'', [''Shares'', ''Equities'']),
      (''REALESTATE'', [''Real estate investments'', ''Real estate'']),
      (''HEDGEFUNDS/PRIVATEEQUITY'', [''Hedge funds and private equity'',
                                     ''Hedge Funds / Private Equity'']),
      (''CURRENCYOVERLAY'', [''Currency overlay'']),
      (''COLLATERAL'', [''Collateral'']),
      (''TOTAL'', [''Total assets''])]"

text \<open>\<^verbatim>\<open>OUTPUT_COLUMNS\<close>, with the two fields the parser reads: asset and metric.\<close>

definition OUTPUT_COLUMNS :: "(string \<times> string) list" where
  "OUTPUT_COLUMNS =
     [(''TOTAL'', ''LEVEL''),
      (''INFRASTRUCTURE'', ''ACTUALALLOCATION''),
      (''CASH'', ''ACTUALALLOCATION''),
      (''MORTGAGES'', ''ACTUALALLOCATION''),
      (''BONDS'', ''ACTUALALLOCATION''),
      (''EQUITIES'', ''ACTUALALLOCATION''),
      (''REALESTATE'', ''ACTUALALLOCATION''),
      (''HEDGEFUNDS/PRIVATEEQUITY'', ''ACTUALALLOCATION'')]"

definition REQUIRE_ALL_ASSETS :: bool where
  "REQUIRE_ALL_ASSETS = True"

definition VALIDATE_PERCENTAGE_TOTAL :: bool where
  "VALIDATE_PERCENTAGE_TOTAL = True"

definition PERCENTAGE_TOLERANCE :: pyfloat where
  "PERCENTAGE_TOLERANCE = Finite 2.0"

section \<open>Data and log records\<close>

type_synonym percentages = "(string \<times> pyfloat) list"

text \<open>\<^verbatim>\<open>d[k] = v\<close>: an existing key keeps its place, a new key goes to the end.\<close>

fun dict_set :: "'k \<Rightarrow> 'v \<Rightarrow> ('k \<times> 'v) list \<Rightarrow> ('k \<times> 'v) list" where
  "dict_set k v [] = [(k, v)]"
| "dict_set k v (p # d) = (if fst p = k then (k, v) # d else p # dict_set k v d)"

text \<open>\<^verbatim>\<open>k in d\<close>\<close>

definition dict_has :: "'k \<Rightarrow> ('k \<times> 'v) list \<Rightarrow> bool" where
  "dict_has k d = (map_of d k \<noteq> None)"

text \<open>
  A document is the path given to the parser and the text of each page as pdfplumber
  extracts it (\<^verbatim>\<open>page.extract_text()\<close>, a string, empty for a page without text).
\<close>

record pdf_document =
  pdf_path :: string
  page_texts :: "string list"

text \<open>The dictionary that \<^verbatim>\<open>parse_pdf\<close> returns.\<close>

record extraction_result =
  year :: string
  total_assets :: "pyfloat option"
  percentages :: percentages

text \<open>
  Every call of \<^verbatim>\<open>self.logger\<close> is an effect of the parser. A function of the model returns
  its value together with the records it logged, in order. A record is the level and the
  text of the message as the source writes it, with the placeholders left unexpanded
  (and without apostrophes and line breaks).
\<close>

datatype level = DEBUG | INFO | WARNING | ERROR

type_synonym log = "(level \<times> string) list"

text \<open>An exception that leaves a function is a value of the function.\<close>

datatype error = ValueError

section \<open>Year of the report\<close>

text \<open>
  \<^verbatim>\<open>extract_year_from_pdf\<close>: the first four digits in a row in the file name, else
  the year after \<^verbatim>\<open>Annual Report\<close> on one of the first three pages.
\<close>

fun year_in_pages :: "string list \<Rightarrow> string option" where
  "year_in_pages [] = None"
| "year_in_pages (text # rest) =
     (case re_search match_annual_report None text of
        Some y \<Rightarrow> Some y
      | None \<Rightarrow> year_in_pages rest)"

definition extract_year_from_pdf :: "pdf_document \<Rightarrow> string option \<times> log" where
  "extract_year_from_pdf doc =
     (case re_search match_year None (basename (pdf_path doc)) of
        Some y \<Rightarrow> (Some y, [(INFO, ''Extracted year from filename: {year}'')])
      | None \<Rightarrow>
          (case year_in_pages (take 3 (page_texts doc)) of
             Some y \<Rightarrow> (Some y, [(INFO, ''Extracted year from PDF content: {year}'')])
           | None \<Rightarrow> (None, [])))"

section \<open>Section locator\<close>

text \<open>
  The inner loop of \<^verbatim>\<open>find_composition_section\<close>:
  \<^verbatim>\<open>for keyword in config.PDF_CHART_KEYWORDS: if keyword.lower() in text.lower(): return ...\<close>
\<close>

fun page_matches :: "string list \<Rightarrow> string \<Rightarrow> bool" where
  "page_matches [] text = False"
| "page_matches (kw # kws) text =
     (if py_in (py_lower kw) (py_lower text) then True else page_matches kws text)"

text \<open>
  The outer loop, \<^verbatim>\<open>for page_num, page in enumerate(pdf.pages)\<close>: the first page that
  matches is returned with its number, and no page after it is read.
\<close>

fun scan_pages :: "string list \<Rightarrow> nat \<Rightarrow> string list \<Rightarrow> (nat \<times> string) option" where
  "scan_pages kws page_num [] = None"
| "scan_pages kws page_num (text # rest) =
     (if page_matches kws text then Some (page_num, text)
      else scan_pages kws (Suc page_num) rest)"

text \<open>
  \<^verbatim>\<open>find_composition_section\<close>, with the list of keywords as an argument; the source
  reads \<^verbatim>\<open>config.PDF_CHART_KEYWORDS\<close>. The pair \<^verbatim>\<open>(None, None)\<close> is \<open>None\<close>.
\<close>

definition locate_section :: "string list \<Rightarrow> string list \<Rightarrow> (nat \<times> string) option \<times> log" where
  "locate_section kws texts =
     (case scan_pages kws 0 texts of
        Some (page_num, text) \<Rightarrow>
          (Some (page_num, text),
           [(INFO, ''Searching for composition of assets section...''), (INFO, ''Found composition section on page {page_num + 1}'')])
      | None \<Rightarrow> (None, [(INFO, ''Searching for composition of assets section...'')]))"

definition find_composition_section :: "pdf_document \<Rightarrow> (nat \<times> string) option \<times> log" where
  "find_composition_section doc = locate_section PDF_CHART_KEYWORDS (page_texts doc)"

section \<open>Allocation percentages\<close>

text \<open>
  The inner loop of \<^verbatim>\<open>extract_percentages_from_text\<close> over the names of one asset
  class: the first name whose pattern is found gives the digits, and the \<^verbatim>\<open>break\<close>
  leaves the other names untried.
\<close>

fun first_name_match :: "string list \<Rightarrow> string \<Rightarrow> string option" where
  "first_name_match [] text = None"
| "first_name_match (asset_name # asset_names) text =
     (case re_search (match_asset_percentage asset_name) None text of
        Some ds \<Rightarrow> Some ds
      | None \<Rightarrow> first_name_match asset_names text)"

text \<open>
  The outer loop over \<^verbatim>\<open>config.PDF_ASSET_NAMES.items()\<close>, carrying the dictionary and
  the log. \<^verbatim>\<open>float(match.group(1))\<close> is not guarded in the source: a \<^verbatim>\<open>ValueError\<close>
  there would leave the function.
\<close>

fun percentages_loop ::
  "(string \<times> string list) list \<Rightarrow> string \<Rightarrow> percentages \<Rightarrow> log \<Rightarrow> (error + percentages) \<times> log" where
  "percentages_loop [] text pcts lg = (Inr pcts, lg)"
| "percentages_loop ((asset_code, asset_names) # rest) text pcts lg =
     (case first_name_match asset_names text of
        None \<Rightarrow> percentages_loop rest text pcts lg
      | Some ds \<Rightarrow>
          (case py_float ds of
             None \<Rightarrow> (Inl ValueError, lg)
           | Some percentage \<Rightarrow>
               percentages_loop rest text (dict_set asset_code percentage pcts)
                 (lg @ [(DEBUG, ''Found {asset_code}: {percentage}%'')])))"

definition extract_percentages_from_text :: "string \<Rightarrow> (error + percentages) \<times> log" where
  "extract_percentages_from_text text =
     percentages_loop PDF_ASSET_NAMES text [] [(INFO, ''Extracting percentages from text...'')]"

section \<open>Total assets\<close>

text \<open>\<^verbatim>\<open>find_balance_sheet_page\<close>\<close>

fun scan_balance_sheet :: "nat \<Rightarrow> string list \<Rightarrow> nat option" where
  "scan_balance_sheet page_num [] = None"
| "scan_balance_sheet page_num (text # rest) =
     (if text \<noteq> [] \<and> py_in ''balance sheet'' (py_lower text) then Some page_num
      else scan_balance_sheet (Suc page_num) rest)"

definition find_balance_sheet_page :: "pdf_document \<Rightarrow> nat option \<times> log" where
  "find_balance_sheet_page doc =
     (case scan_balance_sheet 0 (page_texts doc) of
        Some page_num \<Rightarrow>
          (Some page_num,
           [(INFO, ''Searching for Balance sheet page...''), (INFO, ''Found Balance sheet on page {page_num + 1}'')])
      | None \<Rightarrow> (None, [(INFO, ''Searching for Balance sheet page...'')]))"

text \<open>
  The loop of \<^verbatim>\<open>extract_total_assets_fallback\<close> over
  \<^verbatim>\<open>range(len(digit_sequences) - 1)\<close>: each run is joined with the next one.
\<close>

fun try_pairs :: "string list \<Rightarrow> pyfloat option" where
  "try_pairs (a # b # rest) =
     (case clean_number (a @ b) of
        None \<Rightarrow> try_pairs (b # rest)
      | Some val \<Rightarrow>
          if truthy val \<and> fle (Finite 10000) val \<and> fle val (Finite 50000) then Some val
          else try_pairs (b # rest))"
| "try_pairs [a] = None"
| "try_pairs [] = None"

text \<open>\<^verbatim>\<open>extract_total_assets_fallback\<close> (lines 199 to 234)\<close>

definition last_resort :: "string \<Rightarrow> pyfloat option \<times> log" where
  "last_resort line =
     (case re_search match_five_digit None line of
        None \<Rightarrow> (None, [(ERROR, ''Fallback extraction failed'')])
      | Some five_digit \<Rightarrow>
          (case clean_number five_digit of
             None \<Rightarrow> (None, [(ERROR, ''Fallback extraction failed'')])
           | Some val \<Rightarrow>
               if truthy val then (Some val, [(WARNING, ''Using last resort extraction: {val} CHF millions'')])
               else (None, [(ERROR, ''Fallback extraction failed'')])))"

definition extract_total_assets_fallback :: "string \<Rightarrow> string list \<Rightarrow> pyfloat option \<times> log" where
  "extract_total_assets_fallback line parts =
     (let digit_sequences = findall_digits line;
          lg = [(INFO, ''Attempting fallback extraction method...''), (DEBUG, ''Found digit sequences: {digit_sequences}'')]
      in case (if 2 \<le> length digit_sequences then try_pairs digit_sequences else None) of
           Some val \<Rightarrow> (Some val, lg @ [(INFO, ''Fallback succeeded: {val} CHF millions'')])
         | None \<Rightarrow> (let (r, lg') = last_resort line in (r, lg @ lg')))"

text \<open>
  The body of the loop of \<^verbatim>\<open>extract_total_assets_from_table\<close> for the line that holds
  the total (lines 157 to 190): every path through it returns.
\<close>

definition read_total_assets_line :: "string \<Rightarrow> pyfloat option \<times> log" where
  "read_total_assets_line line =
     (let parts = py_split line;
          lg = [(DEBUG, ''Found Total assets line: [{line}]''),
                (DEBUG, ''Split into {len(parts)} parts: {parts}'')]
      in if length parts \<noteq> 6 then
           (let (r, lg') = extract_total_assets_fallback line parts
            in (r, lg @ [(WARNING, ''Unexpected pattern: expected 6 parts, got {len(parts)}'')] @ lg'))
         else if py_lower (parts ! 0) \<noteq> ''total'' \<or> py_lower (parts ! 1) \<noteq> ''assets'' then
           (None, lg @ [(WARNING, ''Pattern validation failed: parts[0]={parts[0]}, parts[1]={parts[1]}'')])
         else
           (let current_year_str = parts ! 2 @ parts ! 3;
                lg2 = lg @ [(DEBUG, ''Reconstructed current year value: {current_year_str}'')]
            in case clean_number current_year_str of
                 None \<Rightarrow> (None, lg2 @ [(ERROR, ''Failed to convert {current_year_str} to number'')])
               | Some total_value \<Rightarrow>
                   (Some total_value,
                    lg2 @ (if flt total_value (Finite 10000) then [(WARNING, ''Total assets value {total_assets} seems too low (expected > 10000)'')] else [])
                        @ [(INFO, ''Extracted Total assets: {total_assets} CHF millions'')])))"

text \<open>The test that selects the line (line 156).\<close>

definition is_total_assets_line :: "string \<Rightarrow> bool" where
  "is_total_assets_line line =
     (py_in ''total assets'' (py_lower line) \<and> \<not> py_in ''total liabilities'' (py_lower line))"

fun scan_lines :: "string list \<Rightarrow> pyfloat option \<times> log" where
  "scan_lines [] = (None, [(ERROR, ''Total assets line not found in page text'')])"
| "scan_lines (line # rest) =
     (if is_total_assets_line line then read_total_assets_line line else scan_lines rest)"

text \<open>What \<^verbatim>\<open>extract_total_assets_from_table\<close> does with the text of the page (lines 146 to 193).\<close>

definition total_assets_from_text :: "string \<Rightarrow> pyfloat option \<times> log" where
  "total_assets_from_text text =
     (if text = [] then (None, [(ERROR, ''No text extracted from page'')])
      else scan_lines (split_newline text))"

text \<open>
  \<^verbatim>\<open>extract_total_assets_from_table\<close>. A page number beyond the last page raises
  \<^verbatim>\<open>IndexError\<close>, which the function catches and logs.
\<close>

definition extract_total_assets_from_table :: "pdf_document \<Rightarrow> nat option \<Rightarrow> pyfloat option \<times> log" where
  "extract_total_assets_from_table doc page_num =
     (let (found, lg) = (case page_num of None \<Rightarrow> find_balance_sheet_page doc
                         | Some n \<Rightarrow> (Some n, []))
      in case found of
           None \<Rightarrow> (None, lg @ [(ERROR, ''Balance sheet page not found'')])
         | Some n \<Rightarrow>
             if n < length (page_texts doc) then
               (let (r, lg') = total_assets_from_text (page_texts doc ! n)
                in (r, lg @ [(INFO, ''Extracting total assets from page {page_num + 1}...'')] @ lg'))
             else (None, lg @ [(INFO, ''Extracting total assets from page {page_num + 1}...''),
                               (ERROR, ''Error extracting total assets: {e}'')]))"

section \<open>Derived cash percentage\<close>

definition known_assets :: "string list" where
  "known_assets =
     [''INFRASTRUCTURE'', ''BONDS'', ''EQUITIES'', ''REALESTATE'', ''HEDGEFUNDS/PRIVATEEQUITY'']"

text \<open>
  \<^verbatim>\<open>calculate_cash_percentage\<close>. The values are read with \<^verbatim>\<open>percentages[asset]\<close> only
  after all the keys were found present.
\<close>

definition calculate_cash_percentage :: "percentages \<Rightarrow> pyfloat option \<times> log" where
  "calculate_cash_percentage pcts =
     (if list_all (\<lambda>asset. dict_has asset pcts) known_assets then
        (let total_known = py_sum (map (\<lambda>asset. the (map_of pcts asset)) known_assets);
             cash_percentage = fsub (Finite 100.0) total_known
         in if fle (Finite 0) cash_percentage \<and> fle cash_percentage (Finite 100)
            then (Some cash_percentage, [(INFO, ''Calculated CASH percentage: {cash_percentage}%'')])
            else (None, []))
      else (None, []))"

text \<open>The step of \<^verbatim>\<open>parse_pdf\<close> that uses it (lines 302 to 306).\<close>

definition derive_cash :: "percentages \<Rightarrow> percentages \<times> log" where
  "derive_cash pcts =
     (if \<not> dict_has ''CASH'' pcts then
        (let (cash_pct, lg) = calculate_cash_percentage pcts
         in case cash_pct of
              None \<Rightarrow> (pcts, lg)
            | Some c \<Rightarrow> (dict_set ''CASH'' c pcts, lg))
      else (pcts, []))"

section \<open>Validation\<close>

text \<open>The two checks at the end of \<^verbatim>\<open>parse_pdf\<close> (lines 321 to 337): they only log.\<close>

definition check_percentage_total :: "percentages \<Rightarrow> log" where
  "check_percentage_total pcts =
     (if VALIDATE_PERCENTAGE_TOTAL then
        (let total_pct = py_sum (map snd pcts);
             deviation = fabs (fsub total_pct (Finite 100.0))
         in if flt PERCENTAGE_TOLERANCE deviation
            then [(WARNING, ''Percentage total: {total_pct}% (deviation: {deviation}%)'')]
            else [(INFO, ''Percentage validation passed: {total_pct}%'')])
      else [])"

definition check_required_assets :: "percentages \<Rightarrow> log" where
  "check_required_assets pcts =
     (if REQUIRE_ALL_ASSETS then
        (let required_assets =
               map fst (filter (\<lambda>col. snd col = ''ACTUALALLOCATION'') OUTPUT_COLUMNS);
             missing_assets = filter (\<lambda>asset. \<not> dict_has asset pcts) required_assets
         in if missing_assets \<noteq> [] then [(WARNING, ''Missing assets: {missing_assets}'')] else [])
      else [])"

section \<open>Orchestrator\<close>

text \<open>
  \<^verbatim>\<open>parse_pdf\<close>. The test \<^verbatim>\<open>not year\<close> holds of \<^verbatim>\<open>None\<close> and of the empty string.
  \<open>Inr None\<close> is the return of \<^verbatim>\<open>None\<close>, \<open>Inr (Some r)\<close> the return
  of the dictionary, \<open>Inl\<close> an exception that \<^verbatim>\<open>parse_pdf\<close> does not catch.
\<close>

definition parse_pdf :: "pdf_document \<Rightarrow> (error + extraction_result option) \<times> log" where
  "parse_pdf doc =
     (let lg0 = [(INFO, ''Parsing PDF: {pdf_path}'')];
          (yr, lg1) = extract_year_from_pdf doc
      in case (if yr = Some [] then None else yr) of
           None \<Rightarrow> (Inr None, lg0 @ lg1 @ [(ERROR, ''Could not extract year from PDF'')])
         | Some y \<Rightarrow>
           (let (section, lg2) = find_composition_section doc
            in case section of
                 None \<Rightarrow> (Inr None, lg0 @ lg1 @ lg2 @ [(ERROR, ''Could not find composition of assets section'')])
               | Some (page_num, page_text) \<Rightarrow>
                   (let (extracted, lg3) = extract_percentages_from_text page_text
                    in case extracted of
                         Inl e \<Rightarrow> (Inl e, lg0 @ lg1 @ lg2 @ lg3)
                       | Inr pcts \<Rightarrow>
                           if pcts = [] then
                             (Inr None,
                              lg0 @ lg1 @ lg2 @ lg3 @ [(ERROR, ''Could not extract asset percentages'')])
                           else
                             (let lg4 = [(INFO, ''Extracted {len(percentages)} asset percentages'')];
                                  (pcts', lg5) = derive_cash pcts;
                                  (total_value, lg6) = extract_total_assets_from_table doc None;
                                  lg7 = (if total_value = None
                                         then [(WARNING, ''Could not extract total assets value'')] else []);
                                  result = \<lparr>year = y, total_assets = total_value,
                                            percentages = pcts'\<rparr>;
                                  lg8 = check_percentage_total pcts';
                                  lg9 = check_required_assets pcts';
                                  lg10 = [(INFO, ''Successfully parsed {year} - Total Assets: {total_assets}, Percentages: {len(percentages)}'')]
                              in (Inr (Some result),
                                  lg0 @ lg1 @ lg2 @ lg3 @ lg4 @ lg5 @ lg6 @ lg7 @ lg8 @ lg9 @
                                  lg10)))))"

section \<open>Vocabulary of the properties\<close>

text \<open>\<open>sub\<close> occurs in \<open>s\<close>; a page holds one of the keywords, whatever the case of the letters.\<close>

definition occurs_in :: "string \<Rightarrow> string \<Rightarrow> bool" where
  "occurs_in sub s = (\<exists>pre post. s = pre @ sub @ post)"

definition has_keyword :: "string list \<Rightarrow> string \<Rightarrow> bool" where
  "has_keyword kws text = (\<exists>k \<in> set kws. occurs_in (py_lower k) (py_lower text))"




text \<open>
  An asset name occurs in a text with a percentage: somewhere in the text stand the
  characters of the name, in any case, then whitespace, then digits, then a percent sign.
\<close>

definition alias_occurs :: "string \<Rightarrow> string \<Rightarrow> bool" where
  "alias_occurs alias text =
     (\<exists>pre x ws ds post.
        text = pre @ x @ ws @ ds @ ''%'' @ post \<and> py_lower x = py_lower alias \<and>
        ws \<noteq> [] \<and> list_all py_isspace ws \<and> ds \<noteq> [] \<and> list_all py_isdecimal ds)"

section \<open>Properties of strings\<close>

text \<open>Facts for evaluating the definitions on a given text.\<close>

lemmas eval_chars = py_isspace_def py_isdecimal_def py_isword_def is_upper_def lower_char_def
  py_lower_def float_isspace_def digit_val_def

lemmas eval_float = clean_number_def remove_char_def py_strip_def py_float_def float_strip_def
  split_sign_def parse_decimal_def dec_value_def truthy_def

text \<open>
  The lower-case form of an upper-case letter is 32 code points above it, and the models
  of \<^verbatim>\<open>str.lower\<close>, \<^verbatim>\<open>float\<close> and \<^verbatim>\<open>clean_number\<close> on some strings.
\<close>

lemma lower_char_adds_32:
  assumes "is_upper c"
  shows "(of_char (lower_char c) :: nat) = of_char c + 32"
proof (cases c)
  case (Char b0 b1 b2 b3 b4 b5 b6 b7)
  with assms show ?thesis
    by (cases b0; cases b1; cases b2; cases b3; cases b4; cases b5; cases b6; cases b7;
        simp add: is_upper_def lower_char_def)
qed

lemma lower_char_examples:
  "py_lower ''Total Assets'' = ''total assets''"
  "py_lower [CHR 0xC9, CHR 0xD7, CHR 0xDF] = [CHR 0xE9, CHR 0xD7, CHR 0xDF]"
  by (simp_all add: eval_chars)

lemma py_float_examples:
  "py_float ''13432'' = Some (Finite 13432)"
  "py_float '' 1_000 '' = Some (Finite 1000)"
  "py_float ''1__0'' = None"
  "py_float ''-.5e-3'' = Some (Finite (- 0.0005))"
  "py_float ''iNf'' = Some PosInf"
  "py_float ''-nan'' = Some NaN"
  "py_float ''1e'' = None"
  "py_float ''.'' = None"
  "py_float ''13 432'' = None"
  "py_float [CHR 0x1C, CHR ''1''] = None"
  by (simp_all add: eval_chars eval_float)

lemma clean_number_examples:
  "clean_number ''13 432'' = Some (Finite 13432)"
  "clean_number ''13,432.5'' = Some (Finite 13432.5)"
  "clean_number ''nan'' = None"
  "clean_number ''NaN'' = Some NaN"
  "clean_number ''n/a'' = None"
  by (simp_all add: eval_chars eval_float)

lemma startswith_iff: "startswith s p \<longleftrightarrow> (\<exists>post. s = p @ post)"
  by (induction s p rule: startswith.induct) auto

lemma py_in_iff: "py_in sub s \<longleftrightarrow> (\<exists>pre post. s = pre @ sub @ post)"
proof (induction s)
  case Nil
  then show ?case by auto
next
  case (Cons c cs)
  show ?case
  proof
    assume "py_in sub (c # cs)"
    then consider "startswith (c # cs) sub" | "py_in sub cs" by (auto split: if_splits)
    then show "\<exists>pre post. c # cs = pre @ sub @ post"
    proof cases
      case 1
      then obtain post where "c # cs = sub @ post" by (auto simp: startswith_iff)
      then have "c # cs = [] @ sub @ post" by simp
      then show ?thesis by blast
    next
      case 2
      with Cons.IH obtain pre post where "cs = pre @ sub @ post" by blast
      then have "c # cs = (c # pre) @ sub @ post" by simp
      then show ?thesis by blast
    qed
  next
    assume "\<exists>pre post. c # cs = pre @ sub @ post"
    then obtain pre post where eq: "c # cs = pre @ sub @ post" by blast
    show "py_in sub (c # cs)"
    proof (cases pre)
      case Nil
      with eq have "startswith (c # cs) sub" by (simp add: startswith_iff)
      then show ?thesis by simp
    next
      case (Cons p pre')
      with eq have "cs = pre' @ sub @ post" by simp
      with Cons.IH have "py_in sub cs" by blast
      then show ?thesis by simp
    qed
  qed
qed

lemma page_matches_iff:
  "page_matches kws text \<longleftrightarrow> (\<exists>k \<in> set kws. py_in (py_lower k) (py_lower text))"
  by (induction kws) auto

lemma scan_pages_Some:
  "scan_pages kws n pgs = Some (i, t) \<longleftrightarrow>
     n \<le> i \<and> i - n < length pgs \<and> t = pgs ! (i - n) \<and> page_matches kws t \<and>
     (\<forall>j < i - n. \<not> page_matches kws (pgs ! j))"
proof (induction pgs arbitrary: n)
  case Nil
  then show ?case by simp
next
  case (Cons pg rest)
  show ?case
  proof (cases "page_matches kws pg")
    case True
    have "(n = i \<and> pg = t) \<longleftrightarrow>
          (n \<le> i \<and> i - n < length (pg # rest) \<and> t = (pg # rest) ! (i - n) \<and>
           page_matches kws t \<and> (\<forall>j < i - n. \<not> page_matches kws ((pg # rest) ! j)))"
      (is "?l \<longleftrightarrow> ?r")
    proof
      assume ?l
      with True show ?r by auto
    next
      assume r: ?r
      have "i - n = 0"
      proof (rule ccontr)
        assume "i - n \<noteq> 0"
        then have "0 < i - n" by simp
        with r have "\<not> page_matches kws ((pg # rest) ! 0)" by blast
        with True show False by simp
      qed
      with r show ?l by auto
    qed
    with True show ?thesis by simp
  next
    case False
    have "(Suc n \<le> i \<and> i - Suc n < length rest \<and> t = rest ! (i - Suc n) \<and>
           page_matches kws t \<and> (\<forall>j < i - Suc n. \<not> page_matches kws (rest ! j))) \<longleftrightarrow>
          (n \<le> i \<and> i - n < length (pg # rest) \<and> t = (pg # rest) ! (i - n) \<and>
           page_matches kws t \<and> (\<forall>j < i - n. \<not> page_matches kws ((pg # rest) ! j)))"
      (is "?l \<longleftrightarrow> ?r")
    proof
      assume l: ?l
      then have d: "i - n = Suc (i - Suc n)" by arith
      have "\<forall>j < i - n. \<not> page_matches kws ((pg # rest) ! j)"
      proof (intro allI impI)
        fix j assume "j < i - n"
        then show "\<not> page_matches kws ((pg # rest) ! j)"
          using l False d by (cases j) auto
      qed
      with l d show ?r by auto
    next
      assume r: ?r
      have "i - n \<noteq> 0"
      proof
        assume "i - n = 0"
        with r have "page_matches kws pg" by auto
        with False show False by simp
      qed
      then have d: "i - n = Suc (i - Suc n)" by arith
      have "\<forall>j < i - Suc n. \<not> page_matches kws (rest ! j)"
      proof (intro allI impI)
        fix j assume "j < i - Suc n"
        then have "Suc j < i - n" using d by arith
        with r have "\<not> page_matches kws ((pg # rest) ! Suc j)" by blast
        then show "\<not> page_matches kws (rest ! j)" by simp
      qed
      with r d show ?l by auto
    qed
    with False Cons.IH [of "Suc n"] show ?thesis by simp
  qed
qed

lemma scan_pages_None:
  "scan_pages kws n pgs = None \<longleftrightarrow> (\<forall>t \<in> set pgs. \<not> page_matches kws t)"
  by (induction pgs arbitrary: n) auto

section \<open>Properties of the section locator\<close>

lemma page_matches_has_keyword: "page_matches kws t = has_keyword kws t"
  by (simp add: page_matches_iff has_keyword_def occurs_in_def py_in_iff)

lemma fst_locate_section: "fst (locate_section kws pgs) = scan_pages kws 0 pgs"
  by (simp add: locate_section_def split: option.splits)

lemma scan_pages_prefix:
  "scan_pages kws n pgs = Some (i, t) \<Longrightarrow>
   scan_pages kws n (take (Suc (i - n)) pgs @ later) = Some (i, t)"
proof (induction pgs arbitrary: n)
  case Nil
  then show ?case by simp
next
  case (Cons pg rest)
  show ?case
  proof (cases "page_matches kws pg")
    case True
    with Cons.prems show ?thesis by auto
  next
    case False
    with Cons.prems have s: "scan_pages kws (Suc n) rest = Some (i, t)" by simp
    then have "Suc n \<le> i" by (simp add: scan_pages_Some)
    then have "Suc (i - n) = Suc (Suc (i - Suc n))" by arith
    with Cons.IH [OF s] False show ?thesis by simp
  qed
qed

text \<open>
  C9. For every sequence of pages and every list of keywords, the section locator returns
  the page of smallest index whose text holds one of the keywords without regard to case,
  together with the text of that page; the pages after it are not read, so the result is
  the same whatever follows the matching page; and when no page matches, the locator
  returns nothing (it is a total function, so it does not fail).
\<close>

theorem section_locator_first_match:
  "(fst (locate_section kws pgs) = Some (i, t) \<longleftrightarrow>
      i < length pgs \<and> t = pgs ! i \<and> has_keyword kws (pgs ! i) \<and>
      (\<forall>j < i. \<not> has_keyword kws (pgs ! j))) \<and>
   (fst (locate_section kws pgs) = None \<longleftrightarrow> (\<forall>j < length pgs. \<not> has_keyword kws (pgs ! j))) \<and>
   (fst (locate_section kws pgs) = Some (i, t) \<longrightarrow>
      (\<forall>later. fst (locate_section kws (take (Suc i) pgs @ later)) = Some (i, t)))"
proof (intro conjI)
  show "fst (locate_section kws pgs) = Some (i, t) \<longleftrightarrow>
      i < length pgs \<and> t = pgs ! i \<and> has_keyword kws (pgs ! i) \<and>
      (\<forall>j < i. \<not> has_keyword kws (pgs ! j))"
    using scan_pages_Some [of kws 0 pgs i t]
    by (auto simp: fst_locate_section page_matches_has_keyword)
  show "fst (locate_section kws pgs) = None \<longleftrightarrow> (\<forall>j < length pgs. \<not> has_keyword kws (pgs ! j))"
    by (simp add: fst_locate_section scan_pages_None page_matches_has_keyword all_set_conv_all_nth)
  show "fst (locate_section kws pgs) = Some (i, t) \<longrightarrow>
      (\<forall>later. fst (locate_section kws (take (Suc i) pgs @ later)) = Some (i, t))"
    using scan_pages_prefix [of kws 0 pgs i t] by (simp add: fst_locate_section)
qed

text \<open>
  The table of contents on the second page repeats the name of the section, in capitals:
  it is the page returned, not the section itself on the third page.
\<close>

theorem section_locator_first_match_witness:
  "fst (find_composition_section
     \<lparr>pdf_path = ''report.pdf'',
      page_texts = [''Annual Report'', ''Contents: THE COMPOSITION OF ASSETS ... 12'',
                    ''The composition of assets breaks down as follows:'']\<rparr>)
   = Some (1, ''Contents: THE COMPOSITION OF ASSETS ... 12'')"
proof -
  let ?pgs = "[''Annual Report'', ''Contents: THE COMPOSITION OF ASSETS ... 12'',
               ''The composition of assets breaks down as follows:'']"
  have m: "has_keyword PDF_CHART_KEYWORDS (?pgs ! 1)"
    unfolding page_matches_has_keyword [symmetric]
    by (simp add: PDF_CHART_KEYWORDS_def py_lower_def lower_char_def is_upper_def)
  have n: "\<not> has_keyword PDF_CHART_KEYWORDS (?pgs ! 0)"
    unfolding page_matches_has_keyword [symmetric]
    by (simp add: PDF_CHART_KEYWORDS_def py_lower_def lower_char_def is_upper_def)
  have "fst (locate_section PDF_CHART_KEYWORDS ?pgs) = Some (1, ?pgs ! 1)"
    using section_locator_first_match [of PDF_CHART_KEYWORDS ?pgs 1 "?pgs ! 1"] m n
    by simp
  then show ?thesis by (simp add: find_composition_section_def)
qed

section \<open>Digit strings as numbers\<close>

text \<open>
  \<^verbatim>\<open>float\<close> and \<^verbatim>\<open>clean_number\<close> read a non-empty string of digits as the number it
  writes in base ten.
\<close>

lemma digit_classes:
  assumes "py_isdecimal c"
  shows "\<not> py_isspace c" "\<not> float_isspace c" "\<not> is_upper c" "c \<noteq> CHR ''_''"
    "c \<noteq> CHR ''-''" "c \<noteq> CHR ''+''" "c \<noteq> CHR '' ''" "c \<noteq> CHR '',''" "c \<noteq> CHR 0xA0"
    "digit_val c \<le> 9"
  using assms
  by (auto simp: py_isdecimal_def py_isspace_def float_isspace_def is_upper_def digit_val_def Let_def)

lemma strip_unchanged:
  assumes "s \<noteq> []" "\<not> P (hd s)" "\<not> P (last s)"
  shows "rev (dropWhile P (rev (dropWhile P s))) = s"
proof -
  have "dropWhile P s = s" using assms by (simp add: dropWhile_eq_self_iff)
  moreover have "dropWhile P (rev s) = rev s"
    using assms by (simp add: dropWhile_eq_self_iff hd_rev)
  ultimately show ?thesis by simp
qed

lemma underscores_ok_digits:
  "list_all py_isdecimal ds \<Longrightarrow> prev \<noteq> CHR ''_'' \<Longrightarrow> underscores_ok prev ds"
  by (induction ds arbitrary: prev) (auto simp: digit_classes)

lemma remove_char_absent: "c \<notin> set s \<Longrightarrow> remove_char c s = s"
  by (induction s) (auto simp: remove_char_def)

lemma digits_exclude:
  assumes "\<forall>c \<in> set ds. py_isdecimal c"
  shows "CHR ''_'' \<notin> set ds" "CHR '' '' \<notin> set ds" "CHR '','' \<notin> set ds" "CHR 0xA0 \<notin> set ds"
  using assms by (auto simp: py_isdecimal_def)

lemma py_lower_digits: "list_all py_isdecimal ds \<Longrightarrow> py_lower ds = ds"
  by (simp add: py_lower_def lower_char_def list_all_iff digit_classes map_idI)

lemma parse_decimal_digits:
  assumes "ds \<noteq> []" "list_all py_isdecimal ds"
  shows "parse_decimal ds = Some (real (dec_value ds))"
proof -
  have t: "takeWhile py_isdecimal ds = ds" using assms by (simp add: list_all_iff)
  have d: "dropWhile py_isdecimal ds = []" using assms by (simp add: list_all_iff)
  show ?thesis using assms by (simp add: parse_decimal_def t d)
qed

lemma py_float_digits:
  assumes "ds \<noteq> []" "list_all py_isdecimal ds"
  shows "py_float ds = Some (Finite (real (dec_value ds)))"
proof -
  have all: "\<forall>c \<in> set ds. py_isdecimal c" using assms by (simp add: list_all_iff)
  have h: "py_isdecimal (hd ds)" and l: "py_isdecimal (last ds)" using assms all by auto
  have s: "float_strip ds = ds"
    unfolding float_strip_def using assms h l by (intro strip_unchanged) (auto simp: digit_classes)
  have u: "underscores_ok (CHR 0x00) ds" using assms by (simp add: underscores_ok_digits)
  have r: "remove_char (CHR ''_'') ds = ds"
    using all by (simp add: remove_char_absent digits_exclude)
  have g: "split_sign ds = (False, ds)"
    using assms h by (cases ds) (auto simp: split_sign_def digit_classes)
  have w: "ds \<noteq> ''inf''" "ds \<noteq> ''infinity''" "ds \<noteq> ''nan''"
    using h by (auto simp: py_isdecimal_def)
  show ?thesis
    using assms w by (simp add: py_float_def s u r g py_lower_digits parse_decimal_digits)
qed

lemma clean_number_digits:
  assumes "ds \<noteq> []" "list_all py_isdecimal ds"
  shows "clean_number ds = Some (Finite (real (dec_value ds)))"
proof -
  have all: "\<forall>c \<in> set ds. py_isdecimal c" using assms by (simp add: list_all_iff)
  have h: "py_isdecimal (hd ds)" and l: "py_isdecimal (last ds)" using assms all by auto
  have r: "remove_char (CHR 0xA0) (remove_char (CHR '','') (remove_char (CHR '' '') ds)) = ds"
    using all by (simp add: remove_char_absent digits_exclude)
  have s: "py_strip ds = ds"
    unfolding py_strip_def using assms h l by (intro strip_unchanged) (auto simp: digit_classes)
  have w: "ds \<noteq> ''nan''" using h by (auto simp: py_isdecimal_def)
  show ?thesis using assms w by (simp add: clean_number_def r s py_float_digits)
qed

section \<open>Range of the fallback\<close>

lemma re_search_Some:
  "re_search m prev s = Some r \<Longrightarrow> \<exists>prev' s'. m prev' s' = Some r"
  by (induction s arbitrary: prev) (auto split: option.splits)

lemma match_five_digit_shape:
  assumes "match_five_digit prev s = Some m"
  shows "\<exists>b c d e. m = [CHR ''1'', b, c, d, e] \<and> (b = CHR ''3'' \<or> b = CHR ''4'') \<and>
           py_isdecimal c \<and> py_isdecimal d \<and> py_isdecimal e"
proof -
  from assms have len: "5 \<le> length s"
    by (simp add: match_five_digit_def split: if_splits)
  then obtain a b c d e rest where s: "s = a # b # c # d # e # rest"
    by (auto simp: Suc_le_length_iff numeral_eq_Suc)
  with assms show ?thesis
    by (auto simp: match_five_digit_def split: if_splits)
qed

lemma five_digit_value:
  assumes "b = CHR ''3'' \<or> b = CHR ''4''" "py_isdecimal c" "py_isdecimal d" "py_isdecimal e"
  shows "list_all py_isdecimal [CHR ''1'', b, c, d, e]"
    and "13000 \<le> dec_value [CHR ''1'', b, c, d, e]"
    and "dec_value [CHR ''1'', b, c, d, e] \<le> 14999"
proof -
  show "list_all py_isdecimal [CHR ''1'', b, c, d, e]"
    using assms by (auto simp: py_isdecimal_def)
  have v: "dec_value [CHR ''1'', b, c, d, e] =
           10000 + 1000 * digit_val b + 100 * digit_val c + 10 * digit_val d + digit_val e"
    by (simp add: dec_value_def digit_val_def)
  have b: "digit_val b = 3 \<or> digit_val b = 4" using assms(1) by (auto simp: digit_val_def)
  have "digit_val c \<le> 9" "digit_val d \<le> 9" "digit_val e \<le> 9"
    using assms by (simp_all add: digit_classes)
  with v b show "13000 \<le> dec_value [CHR ''1'', b, c, d, e]"
    and "dec_value [CHR ''1'', b, c, d, e] \<le> 14999" by auto
qed

lemma last_resort_range:
  assumes "fst (last_resort line) = Some v"
  shows "\<exists>r. v = Finite r \<and> 13000 \<le> r \<and> r \<le> 14999"
proof -
  from assms obtain m where m: "re_search match_five_digit None line = Some m"
    and c: "clean_number m = Some v"
    by (auto simp: last_resort_def split: option.splits if_splits)
  from re_search_Some [OF m] obtain prev s where "match_five_digit prev s = Some m" by blast
  from match_five_digit_shape [OF this] obtain b x y z where
    shape: "m = [CHR ''1'', b, x, y, z]" "b = CHR ''3'' \<or> b = CHR ''4''"
      "py_isdecimal x" "py_isdecimal y" "py_isdecimal z" by blast
  have "clean_number m = Some (Finite (real (dec_value m)))"
    unfolding shape(1) using five_digit_value(1) [OF shape(2-5)]
    by (intro clean_number_digits) simp_all
  with c have v: "v = Finite (real (dec_value m))" by simp
  have "13000 \<le> dec_value m" "dec_value m \<le> 14999"
    unfolding shape(1) using five_digit_value(2,3) [OF shape(2-5)] by simp_all
  then have "13000 \<le> real (dec_value m)" "real (dec_value m) \<le> 14999" by linarith+
  with v show ?thesis by blast
qed

lemma in_range_Finite:
  "fle (Finite lo) v \<Longrightarrow> fle v (Finite hi) \<Longrightarrow> \<exists>r. v = Finite r \<and> lo \<le> r \<and> r \<le> hi"
  by (cases v) auto

lemma try_pairs_range:
  "try_pairs ds = Some v \<Longrightarrow> fle (Finite 10000) v \<and> fle v (Finite 50000)"
  by (induction ds rule: try_pairs.induct) (auto split: option.splits if_splits)

text \<open>
  C10. Whenever the fallback for the total assets returns a number, the number lies in
  [10000, 50000]: a pair of adjacent digit runs is accepted only with a value in that
  range, and the last-resort pattern can only give a value in [13000, 14999].
\<close>

theorem fallback_value_in_range:
  "(fst (extract_total_assets_fallback line parts) = Some v \<longrightarrow>
      (\<exists>r. v = Finite r \<and> 10000 \<le> r \<and> r \<le> 50000)) \<and>
   (try_pairs (findall_digits line) = Some v \<longrightarrow>
      (\<exists>r. v = Finite r \<and> 10000 \<le> r \<and> r \<le> 50000)) \<and>
   (fst (last_resort line) = Some v \<longrightarrow> (\<exists>r. v = Finite r \<and> 13000 \<le> r \<and> r \<le> 14999))"
proof (intro conjI impI)
  assume "try_pairs (findall_digits line) = Some v"
  then show "\<exists>r. v = Finite r \<and> 10000 \<le> r \<and> r \<le> 50000"
    using try_pairs_range in_range_Finite by blast
next
  assume "fst (last_resort line) = Some v"
  then show "\<exists>r. v = Finite r \<and> 13000 \<le> r \<and> r \<le> 14999" by (rule last_resort_range)
next
  assume a: "fst (extract_total_assets_fallback line parts) = Some v"
  show "\<exists>r. v = Finite r \<and> 10000 \<le> r \<and> r \<le> 50000"
  proof (cases "if 2 \<le> length (findall_digits line) then try_pairs (findall_digits line) else None")
    case (Some w)
    with a have "w = v" by (simp add: extract_total_assets_fallback_def Let_def)
    with Some have "try_pairs (findall_digits line) = Some v" by (simp split: if_splits)
    then show ?thesis using try_pairs_range in_range_Finite by blast
  next
    case None
    with a have "fst (last_resort line) = Some v"
      by (simp add: extract_total_assets_fallback_def Let_def split: prod.splits)
    from last_resort_range [OF this] show ?thesis by force
  qed
qed

text \<open>
  A line of seven tokens, where the first two runs of digits give 25600, and a line where
  only the last resort finds the figure.
\<close>

theorem fallback_value_in_range_witness:
  "fst (extract_total_assets_fallback ''Total assets (CHF m) 25 600 24 100'' []) = Some (Finite 25600) \<and>
   fst (last_resort ''Total assets 14250'') = Some (Finite 14250) \<and>
   (\<exists>r. Finite 25600 = Finite r \<and> 10000 \<le> r \<and> r \<le> 50000) \<and>
   (\<exists>r. Finite 14250 = Finite r \<and> 13000 \<le> r \<and> r \<le> 14999)"
proof -
  have f: "fst (extract_total_assets_fallback ''Total assets (CHF m) 25 600 24 100'' []) =
           Some (Finite 25600)"
    by (simp add: extract_total_assets_fallback_def findall_digits_def eval_chars eval_float)
  have l: "fst (last_resort ''Total assets 14250'') = Some (Finite 14250)"
    by (simp add: last_resort_def match_five_digit_def at_boundary_def eval_chars eval_float)
  from fallback_value_in_range [of "''Total assets (CHF m) 25 600 24 100''" "[]" "Finite 25600"] f
  have "\<exists>r. Finite 25600 = Finite r \<and> 10000 \<le> r \<and> r \<le> 50000" by blast
  moreover from fallback_value_in_range [of "''Total assets 14250''" "[]" "Finite 14250"] l
  have "\<exists>r. Finite 14250 = Finite r \<and> 13000 \<le> r \<and> r \<le> 14999" by blast
  ultimately show ?thesis using f l by blast
qed

section \<open>Total assets: the line and its shape\<close>

lemma scan_lines_find:
  "scan_lines lines =
     (case find is_total_assets_line lines of
        None \<Rightarrow> (None, [(ERROR, ''Total assets line not found in page text'')])
      | Some line \<Rightarrow> read_total_assets_line line)"
  by (induction lines) auto

lemma empty_not_total_assets_line: "\<not> is_total_assets_line []"
  by (simp add: is_total_assets_line_def py_lower_def)

lemma total_assets_from_text_find:
  assumes "find is_total_assets_line (split_newline text) = Some line"
  shows "total_assets_from_text text = read_total_assets_line line"
proof -
  have "text \<noteq> []"
  proof
    assume "text = []"
    with assms have "is_total_assets_line []" by (simp split: if_splits)
    then show False by (simp add: empty_not_total_assets_line)
  qed
  with assms show ?thesis by (simp add: total_assets_from_text_def scan_lines_find)
qed





lemma snd_fallback_attempting:
  "(INFO, ''Attempting fallback extraction method...'') \<in> set (snd (extract_total_assets_fallback line parts))"
  by (simp add: extract_total_assets_fallback_def Let_def split: option.splits prod.splits)

lemma read_line_not_six:
  assumes "length (py_split line) \<noteq> 6"
  shows "fst (read_total_assets_line line) = fst (extract_total_assets_fallback line (py_split line))"
    and "snd (read_total_assets_line line) =
         [(DEBUG, ''Found Total assets line: [{line}]''),
          (DEBUG, ''Split into {len(parts)} parts: {parts}''),
          (WARNING, ''Unexpected pattern: expected 6 parts, got {len(parts)}'')] @
         snd (extract_total_assets_fallback line (py_split line))"
  using assms by (simp_all add: read_total_assets_line_def Let_def split: prod.splits)

lemma read_line_mismatch:
  assumes "length (py_split line) = 6"
    and "py_lower (py_split line ! 0) \<noteq> ''total'' \<or> py_lower (py_split line ! 1) \<noteq> ''assets''"
  shows "read_total_assets_line line =
         (None, [(DEBUG, ''Found Total assets line: [{line}]''),
                 (DEBUG, ''Split into {len(parts)} parts: {parts}''),
                 (WARNING, ''Pattern validation failed: parts[0]={parts[0]}, parts[1]={parts[1]}'')])"
  using assms by (auto simp: read_total_assets_line_def Let_def)

text \<open>
  C2, as stated, fails: a line of six tokens whose first token is not "total" makes the
  extraction return nothing without entering the fallback, although the fallback would
  have found 13432 on this line.
\<close>

theorem label_mismatch_counterexample:
  "length (py_split ''Sub total assets 13 432 083'') = 6 \<and>
   fst (total_assets_from_text ''Sub total assets 13 432 083'') = None \<and>
   (INFO, ''Attempting fallback extraction method...'')
     \<notin> set (snd (total_assets_from_text ''Sub total assets 13 432 083'')) \<and>
   fst (extract_total_assets_fallback ''Sub total assets 13 432 083''
         (py_split ''Sub total assets 13 432 083'')) = Some (Finite 13432)"
proof -
  have s: "py_split ''Sub total assets 13 432 083'' =
           [''Sub'', ''total'', ''assets'', ''13'', ''432'', ''083'']"
    by (simp add: py_split_def eval_chars)
  have i: "is_total_assets_line ''Sub total assets 13 432 083''"
    by (simp add: is_total_assets_line_def eval_chars)
  have l: "py_lower ''Sub'' = ''sub''" by (simp add: eval_chars)
  have r: "total_assets_from_text ''Sub total assets 13 432 083'' =
           (None, [(DEBUG, ''Found Total assets line: [{line}]''),
                   (DEBUG, ''Split into {len(parts)} parts: {parts}''),
                   (WARNING, ''Pattern validation failed: parts[0]={parts[0]}, parts[1]={parts[1]}'')])"
    using i by (simp add: total_assets_from_text_def read_total_assets_line_def s l)
  have f: "fst (extract_total_assets_fallback ''Sub total assets 13 432 083''
             [''Sub'', ''total'', ''assets'', ''13'', ''432'', ''083'']) = Some (Finite 13432)"
    by (simp add: extract_total_assets_fallback_def findall_digits_def eval_chars eval_float)
  show ?thesis unfolding r s using f by simp
qed

text \<open>
  C2, amended. For the line that holds the total: a number of tokens other than six sends
  the extraction to the fallback, whose result is returned; six tokens of which the first
  two, in lower case, are not "total" and "assets" make the extraction return nothing, with
  the warning of the failed validation in the log and without entering the fallback.
\<close>

theorem line_shape_routing:
  assumes "find is_total_assets_line (split_newline text) = Some line"
  shows "(length (py_split line) \<noteq> 6 \<longrightarrow>
            fst (total_assets_from_text text) =
              fst (extract_total_assets_fallback line (py_split line)) \<and>
            (INFO, ''Attempting fallback extraction method...'')
              \<in> set (snd (total_assets_from_text text))) \<and>
         (length (py_split line) = 6 \<and>
          (py_lower (py_split line ! 0) \<noteq> ''total'' \<or> py_lower (py_split line ! 1) \<noteq> ''assets'') \<longrightarrow>
            fst (total_assets_from_text text) = None \<and>
            (WARNING, ''Pattern validation failed: parts[0]={parts[0]}, parts[1]={parts[1]}'')
              \<in> set (snd (total_assets_from_text text)) \<and>
            (INFO, ''Attempting fallback extraction method...'')
              \<notin> set (snd (total_assets_from_text text)))"
  unfolding total_assets_from_text_find [OF assms]
  by (auto simp: read_line_not_six snd_fallback_attempting read_line_mismatch)

text \<open>
  A line of eight tokens goes to the fallback; a line of six tokens whose second token is
  "ASSETS," returns nothing.
\<close>

theorem line_shape_routing_witness:
  "fst (total_assets_from_text ''Total assets (note 4) 13 432 13 083'') = Some (Finite 13432) \<and>
   (INFO, ''Attempting fallback extraction method...'')
     \<in> set (snd (total_assets_from_text ''Total assets (note 4) 13 432 13 083'')) \<and>
   fst (total_assets_from_text ''TOTAL ASSETS, net 13 432 083'') = None \<and>
   (INFO, ''Attempting fallback extraction method...'')
     \<notin> set (snd (total_assets_from_text ''TOTAL ASSETS, net 13 432 083''))"
proof -
  let ?l1 = "''Total assets (note 4) 13 432 13 083''"
  let ?l2 = "''TOTAL ASSETS, net 13 432 083''"
  have f1: "find is_total_assets_line (split_newline ?l1) = Some ?l1"
    by (simp add: is_total_assets_line_def eval_chars)
  have s1: "py_split ?l1 = [''Total'', ''assets'', ''(note'', ''4)'', ''13'', ''432'', ''13'', ''083'']"
    by (simp add: py_split_def eval_chars)
  have e1: "fst (extract_total_assets_fallback ?l1
              [''Total'', ''assets'', ''(note'', ''4)'', ''13'', ''432'', ''13'', ''083''])
            = Some (Finite 13432)"
    by (simp add: extract_total_assets_fallback_def findall_digits_def eval_chars eval_float)
  have f2: "find is_total_assets_line (split_newline ?l2) = Some ?l2"
    by (simp add: is_total_assets_line_def eval_chars)
  have s2: "py_split ?l2 = [''TOTAL'', ''ASSETS,'', ''net'', ''13'', ''432'', ''083'']"
    by (simp add: py_split_def eval_chars)
  have m2: "py_lower ''ASSETS,'' \<noteq> ''assets''" by (simp add: eval_chars)
  from line_shape_routing [OF f1] s1 e1
  have a: "fst (total_assets_from_text ?l1) = Some (Finite 13432) \<and>
           (INFO, ''Attempting fallback extraction method...'')
             \<in> set (snd (total_assets_from_text ?l1))" by simp
  from line_shape_routing [OF f2] s2 m2
  have b: "fst (total_assets_from_text ?l2) = None \<and>
           (INFO, ''Attempting fallback extraction method...'')
             \<notin> set (snd (total_assets_from_text ?l2))" by simp
  from a b show ?thesis by blast
qed

section \<open>Total assets: the order of the fallback\<close>












section \<open>Derived cash percentage: properties\<close>


lemma map_of_dict_set: "map_of (dict_set k v d) k' = (if k' = k then Some v else map_of d k')"
  by (induction d) auto






section \<open>Percentages found on a page\<close>

lemma match_asset_percentage_digits:
  "match_asset_percentage a p s = Some ds \<Longrightarrow> ds \<noteq> [] \<and> list_all py_isdecimal ds"
  by (auto simp: match_asset_percentage_def Let_def list_all_iff split: if_splits option.splits
      dest: set_takeWhileD)

lemma first_name_match_digits:
  "first_name_match names text = Some ds \<Longrightarrow> ds \<noteq> [] \<and> list_all py_isdecimal ds"
proof (induction names)
  case Nil
  then show ?case by simp
next
  case (Cons a names)
  show ?case
  proof (cases "re_search (match_asset_percentage a) None text")
    case None
    with Cons show ?thesis by simp
  next
    case (Some r)
    with Cons.prems have "r = ds" by simp
    with Some re_search_Some [of "match_asset_percentage a" None "text" ds]
    obtain p s where "match_asset_percentage a p s = Some ds" by blast
    then show ?thesis by (rule match_asset_percentage_digits)
  qed
qed

lemma percentages_loop_map:
  "distinct (map fst assets) \<Longrightarrow>
   \<exists>pcts'. fst (percentages_loop assets text pcts lg) = Inr pcts' \<and>
     (\<forall>k. map_of pcts' k =
        (case map_of assets k of
           None \<Rightarrow> map_of pcts k
         | Some names \<Rightarrow>
             (case first_name_match names text of
                None \<Rightarrow> map_of pcts k
              | Some ds \<Rightarrow> Some (Finite (real (dec_value ds))))))"
proof (induction assets arbitrary: pcts lg)
  case Nil
  then show ?case by simp
next
  case (Cons entry rest)
  obtain code names where entry: "entry = (code, names)" by (cases entry)
  from Cons.prems entry have d: "distinct (map fst rest)" and n: "map_of rest code = None"
    by (auto simp: map_of_eq_None_iff)
  show ?case
  proof (cases "first_name_match names text")
    case None
    from Cons.IH [OF d, of pcts lg] obtain pcts' where
      r: "fst (percentages_loop rest text pcts lg) = Inr pcts'" and
      m: "\<forall>k. map_of pcts' k =
            (case map_of rest k of None \<Rightarrow> map_of pcts k
             | Some names \<Rightarrow> (case first_name_match names text of None \<Rightarrow> map_of pcts k
                               | Some ds \<Rightarrow> Some (Finite (real (dec_value ds)))))"
      by blast
    from r None entry have "fst (percentages_loop (entry # rest) text pcts lg) = Inr pcts'"
      by simp
    moreover from m n None entry have "\<forall>k. map_of pcts' k =
            (case map_of (entry # rest) k of None \<Rightarrow> map_of pcts k
             | Some names \<Rightarrow> (case first_name_match names text of None \<Rightarrow> map_of pcts k
                               | Some ds \<Rightarrow> Some (Finite (real (dec_value ds)))))"
      by simp
    ultimately show ?thesis by blast
  next
    case (Some ds)
    from first_name_match_digits [OF Some]
    have f: "py_float ds = Some (Finite (real (dec_value ds)))" by (simp add: py_float_digits)
    let ?v = "Finite (real (dec_value ds))"
    let ?lg = "lg @ [(DEBUG, ''Found {asset_code}: {percentage}%'')]"
    from Cons.IH [OF d, of "dict_set code ?v pcts" ?lg] obtain pcts' where
      r: "fst (percentages_loop rest text (dict_set code ?v pcts) ?lg) = Inr pcts'" and
      m: "\<forall>k. map_of pcts' k =
            (case map_of rest k of None \<Rightarrow> map_of (dict_set code ?v pcts) k
             | Some names \<Rightarrow> (case first_name_match names text of
                                 None \<Rightarrow> map_of (dict_set code ?v pcts) k
                               | Some ds \<Rightarrow> Some (Finite (real (dec_value ds)))))"
      by blast
    from r Some f entry have "fst (percentages_loop (entry # rest) text pcts lg) = Inr pcts'"
      by simp
    moreover from m n Some entry have "\<forall>k. map_of pcts' k =
            (case map_of (entry # rest) k of None \<Rightarrow> map_of pcts k
             | Some names \<Rightarrow> (case first_name_match names text of None \<Rightarrow> map_of pcts k
                               | Some ds \<Rightarrow> Some (Finite (real (dec_value ds)))))"
      by (auto simp: map_of_dict_set split: option.splits)
    ultimately show ?thesis by blast
  qed
qed

lemma distinct_asset_codes: "distinct (map fst PDF_ASSET_NAMES)"
  by (simp add: PDF_ASSET_NAMES_def)

lemma extract_percentages_map:
  "\<exists>pcts. fst (extract_percentages_from_text text) = Inr pcts \<and>
     (\<forall>k. map_of pcts k =
        (case map_of PDF_ASSET_NAMES k of
           None \<Rightarrow> None
         | Some names \<Rightarrow>
             (case first_name_match names text of
                None \<Rightarrow> None
              | Some ds \<Rightarrow> Some (Finite (real (dec_value ds))))))"
proof -
  from percentages_loop_map [OF distinct_asset_codes, of "text" "[]"
      "[(INFO, ''Extracting percentages from text...'')]"]
  obtain pcts where
    r: "fst (percentages_loop PDF_ASSET_NAMES text []
              [(INFO, ''Extracting percentages from text...'')]) = Inr pcts" and
    m: "\<forall>k. map_of pcts k =
          (case map_of PDF_ASSET_NAMES k of None \<Rightarrow> map_of [] k
           | Some names \<Rightarrow> (case first_name_match names text of None \<Rightarrow> map_of [] k
                             | Some ds \<Rightarrow> Some (Finite (real (dec_value ds)))))"
    by blast
  from m have "\<forall>k. map_of pcts k =
          (case map_of PDF_ASSET_NAMES k of None \<Rightarrow> None
           | Some names \<Rightarrow> (case first_name_match names text of None \<Rightarrow> None
                             | Some ds \<Rightarrow> Some (Finite (real (dec_value ds)))))"
    by (simp split: option.splits)
  with r show ?thesis by (simp add: extract_percentages_from_text_def)
qed

lemma match_year_length: "match_year p s = Some y \<Longrightarrow> length y = 4"
  by (auto simp: match_year_def split: if_splits)

lemma match_annual_report_length: "match_annual_report p s = Some y \<Longrightarrow> length y = 4"
  by (auto simp: match_annual_report_def Let_def split: if_splits option.splits)

lemma year_in_pages_length: "year_in_pages pgs = Some y \<Longrightarrow> length y = 4"
proof (induction pgs)
  case Nil
  then show ?case by simp
next
  case (Cons pg rest)
  then show ?case
    using re_search_Some [of match_annual_report None pg y] match_annual_report_length
    by (auto split: option.splits)
qed

lemma extract_year_length:
  assumes "fst (extract_year_from_pdf doc) = Some y"
  shows "length y = 4"
proof (cases "re_search match_year None (basename (pdf_path doc))")
  case None
  with assms have "year_in_pages (take 3 (page_texts doc)) = Some y"
    by (simp add: extract_year_from_pdf_def split: option.splits)
  then show ?thesis by (rule year_in_pages_length)
next
  case (Some z)
  with assms have "z = y" by (simp add: extract_year_from_pdf_def)
  with Some re_search_Some [of match_year None "basename (pdf_path doc)" y] match_year_length
  show ?thesis by blast
qed

lemma dict_set_not_empty: "dict_set k v d \<noteq> []"
  by (cases d) auto

lemma derive_cash_not_empty: "pcts \<noteq> [] \<Longrightarrow> fst (derive_cash pcts) \<noteq> []"
  by (auto simp: derive_cash_def dict_set_not_empty split: prod.splits option.splits)

lemma parse_pdf_no_year:
  "fst (extract_year_from_pdf doc) = None \<Longrightarrow> fst (parse_pdf doc) = Inr None"
  by (cases "extract_year_from_pdf doc") (simp add: parse_pdf_def Let_def)

lemma parse_pdf_no_section:
  assumes "fst (find_composition_section doc) = None"
  shows "fst (parse_pdf doc) = Inr None"
proof -
  obtain yr l1 where e1: "extract_year_from_pdf doc = (yr, l1)"
    by (cases "extract_year_from_pdf doc")
  obtain l2 where e2: "find_composition_section doc = (None, l2)"
    using assms by (cases "find_composition_section doc") simp
  show ?thesis by (simp add: parse_pdf_def Let_def e1 e2 split: option.splits)
qed

lemma parse_pdf_no_percentages:
  assumes "fst (find_composition_section doc) = Some (n, t)"
    and "fst (extract_percentages_from_text t) = Inr []"
  shows "fst (parse_pdf doc) = Inr None"
proof -
  obtain yr l1 where e1: "extract_year_from_pdf doc = (yr, l1)"
    by (cases "extract_year_from_pdf doc")
  obtain l2 where e2: "find_composition_section doc = (Some (n, t), l2)"
    using assms(1) by (cases "find_composition_section doc") simp
  obtain l3 where e3: "extract_percentages_from_text t = (Inr [], l3)"
    using assms(2) by (cases "extract_percentages_from_text t") simp
  show ?thesis by (simp add: parse_pdf_def Let_def e1 e2 e3 split: option.splits)
qed

lemma parse_pdf_result:
  assumes "fst (extract_year_from_pdf doc) = Some y"
    and "fst (find_composition_section doc) = Some (n, t)"
    and "fst (extract_percentages_from_text t) = Inr pcts"
    and "pcts \<noteq> []"
  shows "fst (parse_pdf doc) =
           Inr (Some \<lparr>year = y,
                      total_assets = fst (extract_total_assets_from_table doc None),
                      percentages = fst (derive_cash pcts)\<rparr>)"
    and "set (check_percentage_total (fst (derive_cash pcts))) \<subseteq> set (snd (parse_pdf doc))"
proof -
  from extract_year_length [OF assms(1)] have y: "y \<noteq> []" by auto
  obtain l1 where e1: "extract_year_from_pdf doc = (Some y, l1)"
    using assms(1) by (cases "extract_year_from_pdf doc") simp
  obtain l2 where e2: "find_composition_section doc = (Some (n, t), l2)"
    using assms(2) by (cases "find_composition_section doc") simp
  obtain l3 where e3: "extract_percentages_from_text t = (Inr pcts, l3)"
    using assms(3) by (cases "extract_percentages_from_text t") simp
  obtain p5 l5 where e5: "derive_cash pcts = (p5, l5)" by (cases "derive_cash pcts")
  obtain ta l6 where e6: "extract_total_assets_from_table doc None = (ta, l6)"
    by (cases "extract_total_assets_from_table doc None")
  show "fst (parse_pdf doc) =
           Inr (Some \<lparr>year = y,
                      total_assets = fst (extract_total_assets_from_table doc None),
                      percentages = fst (derive_cash pcts)\<rparr>)"
    using y assms(4) by (simp add: parse_pdf_def Let_def e1 e2 e3 e5 e6)
  show "set (check_percentage_total (fst (derive_cash pcts))) \<subseteq> set (snd (parse_pdf doc))"
    using y assms(4) by (auto simp: parse_pdf_def Let_def e1 e2 e3 e5 e6)
qed

lemma no_balance_sheet_no_total:
  "fst (find_balance_sheet_page doc) = None \<Longrightarrow>
   fst (extract_total_assets_from_table doc None) = None"
  by (cases "find_balance_sheet_page doc") (simp add: extract_total_assets_from_table_def)

section \<open>Orchestrator and validation\<close>

lemma parse_pdf_returns: "\<exists>res. fst (parse_pdf doc) = Inr res"
proof -
  obtain yr l1 where e1: "extract_year_from_pdf doc = (yr, l1)"
    by (cases "extract_year_from_pdf doc")
  obtain sec l2 where e2: "find_composition_section doc = (sec, l2)"
    by (cases "find_composition_section doc")
  show ?thesis
  proof (cases sec)
    case None
    with e2 show ?thesis by (simp add: parse_pdf_no_section)
  next
    case (Some nt)
    obtain n t where nt: "nt = (n, t)" by (cases nt)
    from extract_percentages_map [of t] obtain pcts where
      "fst (extract_percentages_from_text t) = Inr pcts" by blast
    then obtain l3 where e3: "extract_percentages_from_text t = (Inr pcts, l3)"
      by (cases "extract_percentages_from_text t") simp
    show ?thesis
      by (simp add: parse_pdf_def Let_def e1 e2 e3 Some nt split: option.splits prod.splits)
  qed
qed

lemma sample_page_percentages:
  "fst (extract_percentages_from_text ''composition of assets Bonds 60% Shares 30%'') =
     Inr [(''BONDS'', Finite 60), (''EQUITIES'', Finite 30)]"
  by (simp add: extract_percentages_from_text_def PDF_ASSET_NAMES_def match_asset_percentage_def
      eval_chars eval_float)

lemma sample_document_section:
  "fst (find_composition_section
     \<lparr>pdf_path = ''reports/2024.pdf'',
      page_texts = [''Pension Fund'', ''composition of assets Bonds 60% Shares 30%'']\<rparr>) =
   Some (1, ''composition of assets Bonds 60% Shares 30%'')"
  by (simp add: find_composition_section_def locate_section_def PDF_CHART_KEYWORDS_def eval_chars)

lemma sample_document_year:
  "fst (extract_year_from_pdf
     \<lparr>pdf_path = ''reports/2024.pdf'',
      page_texts = [''Pension Fund'', ''composition of assets Bonds 60% Shares 30%'']\<rparr>) =
   Some ''2024''"
  by (simp add: extract_year_from_pdf_def basename_def match_year_def eval_chars)

lemma sample_document_balance_sheet:
  "fst (find_balance_sheet_page
     \<lparr>pdf_path = ''reports/2024.pdf'',
      page_texts = [''Pension Fund'', ''composition of assets Bonds 60% Shares 30%'']\<rparr>) = None"
  by (simp add: find_balance_sheet_page_def eval_chars)

lemma sample_derive_cash:
  "fst (derive_cash [(''BONDS'', Finite 60), (''EQUITIES'', Finite 30)]) =
     [(''BONDS'', Finite 60), (''EQUITIES'', Finite 30)]"
  by (simp add: derive_cash_def calculate_cash_percentage_def known_assets_def dict_has_def)

text \<open>
  C7. For every document: when no year is found, when no page holds the composition
  section, or when no percentage is extracted from that page, \<^verbatim>\<open>parse_pdf\<close> returns
  \<^verbatim>\<open>None\<close>; when these three succeed and only the total assets are not found,
  \<^verbatim>\<open>parse_pdf\<close> returns a result whose total is absent and whose percentages are the
  extracted ones (with the derived cash share, if any), not empty. A document without a
  balance-sheet page is such a case.
\<close>

theorem orchestrator_outcomes:
  "(fst (extract_year_from_pdf doc) = None \<longrightarrow> fst (parse_pdf doc) = Inr None) \<and>
   (fst (find_composition_section doc) = None \<longrightarrow> fst (parse_pdf doc) = Inr None) \<and>
   (\<forall>n t. fst (find_composition_section doc) = Some (n, t) \<and>
          fst (extract_percentages_from_text t) = Inr [] \<longrightarrow>
          fst (parse_pdf doc) = Inr None) \<and>
   (\<forall>y n t pcts.
      fst (extract_year_from_pdf doc) = Some y \<and>
      fst (find_composition_section doc) = Some (n, t) \<and>
      fst (extract_percentages_from_text t) = Inr pcts \<and> pcts \<noteq> [] \<and>
      fst (extract_total_assets_from_table doc None) = None \<longrightarrow>
      (\<exists>r. fst (parse_pdf doc) = Inr (Some r) \<and> year r = y \<and> total_assets r = None \<and>
           percentages r = fst (derive_cash pcts) \<and> percentages r \<noteq> [])) \<and>
   (fst (find_balance_sheet_page doc) = None \<longrightarrow>
      fst (extract_total_assets_from_table doc None) = None)"
proof (intro conjI allI impI)
  show "fst (extract_year_from_pdf doc) = None \<Longrightarrow> fst (parse_pdf doc) = Inr None"
    by (rule parse_pdf_no_year)
  show "fst (find_composition_section doc) = None \<Longrightarrow> fst (parse_pdf doc) = Inr None"
    by (rule parse_pdf_no_section)
  show "fst (find_balance_sheet_page doc) = None \<Longrightarrow>
        fst (extract_total_assets_from_table doc None) = None"
    by (rule no_balance_sheet_no_total)
next
  fix n t
  assume "fst (find_composition_section doc) = Some (n, t) \<and>
          fst (extract_percentages_from_text t) = Inr []"
  then show "fst (parse_pdf doc) = Inr None" using parse_pdf_no_percentages by blast
next
  fix y n t pcts
  assume a: "fst (extract_year_from_pdf doc) = Some y \<and>
      fst (find_composition_section doc) = Some (n, t) \<and>
      fst (extract_percentages_from_text t) = Inr pcts \<and> pcts \<noteq> [] \<and>
      fst (extract_total_assets_from_table doc None) = None"
  then have a1: "fst (extract_year_from_pdf doc) = Some y"
    and a2: "fst (find_composition_section doc) = Some (n, t)"
    and a3: "fst (extract_percentages_from_text t) = Inr pcts" and a4: "pcts \<noteq> []"
    by simp_all
  have "fst (parse_pdf doc) =
           Inr (Some \<lparr>year = y,
                      total_assets = fst (extract_total_assets_from_table doc None),
                      percentages = fst (derive_cash pcts)\<rparr>)"
    by (rule parse_pdf_result(1) [OF a1 a2 a3 a4])
  with a show "\<exists>r. fst (parse_pdf doc) = Inr (Some r) \<and> year r = y \<and> total_assets r = None \<and>
           percentages r = fst (derive_cash pcts) \<and> percentages r \<noteq> []"
    by (simp add: derive_cash_not_empty)
qed

text \<open>
  A report without the composition section gives no result; a report with the section and
  without a balance sheet gives the year and the two percentages, the total absent.
\<close>

theorem orchestrator_outcomes_witness:
  "fst (parse_pdf \<lparr>pdf_path = ''reports/2024.pdf'', page_texts = [''Pension Fund'']\<rparr>) = Inr None \<and>
   (\<exists>r. fst (parse_pdf
            \<lparr>pdf_path = ''reports/2024.pdf'',
             page_texts = [''Pension Fund'', ''composition of assets Bonds 60% Shares 30%'']\<rparr>)
          = Inr (Some r) \<and>
        year r = ''2024'' \<and> total_assets r = None \<and>
        percentages r = [(''BONDS'', Finite 60), (''EQUITIES'', Finite 30)])"
proof -
  let ?a = "\<lparr>pdf_path = ''reports/2024.pdf'', page_texts = [''Pension Fund'']\<rparr>"
  let ?b = "\<lparr>pdf_path = ''reports/2024.pdf'',
             page_texts = [''Pension Fund'', ''composition of assets Bonds 60% Shares 30%'']\<rparr>"
  have "fst (find_composition_section ?a) = None"
    by (simp add: find_composition_section_def locate_section_def PDF_CHART_KEYWORDS_def eval_chars)
  with orchestrator_outcomes [of ?a] have a: "fst (parse_pdf ?a) = Inr None" by blast
  from orchestrator_outcomes [of ?b] sample_document_balance_sheet
  have t: "fst (extract_total_assets_from_table ?b None) = None" by blast
  from orchestrator_outcomes [of ?b] sample_document_year sample_document_section
    sample_page_percentages t
  have "\<exists>r. fst (parse_pdf ?b) = Inr (Some r) \<and> year r = ''2024'' \<and> total_assets r = None \<and>
           percentages r = fst (derive_cash [(''BONDS'', Finite 60), (''EQUITIES'', Finite 30)]) \<and>
           percentages r \<noteq> []"
    by blast
  with a show ?thesis by (auto simp: sample_derive_cash)
qed

text \<open>
  C8. The check of the sum of the percentages only logs: the warning is logged exactly when
  the sum differs from 100 by more than the tolerance, which is 2.0, so a sum of 97.5 gives
  the warning and a sum of 98.5 does not; and whenever the year, the section and some
  percentage were found, \<^verbatim>\<open>parse_pdf\<close> returns the result it built before the check,
  whatever the check logged.
\<close>

theorem validation_advisory:
  "((WARNING, ''Percentage total: {total_pct}% (deviation: {deviation}%)'')
       \<in> set (check_percentage_total pcts) \<longleftrightarrow>
     flt PERCENTAGE_TOLERANCE (fabs (fsub (py_sum (map snd pcts)) (Finite 100)))) \<and>
   PERCENTAGE_TOLERANCE = Finite 2 \<and>
   (py_sum (map snd pcts) = Finite 97.5 \<longrightarrow>
      (WARNING, ''Percentage total: {total_pct}% (deviation: {deviation}%)'')
        \<in> set (check_percentage_total pcts)) \<and>
   (py_sum (map snd pcts) = Finite 98.5 \<longrightarrow>
      (WARNING, ''Percentage total: {total_pct}% (deviation: {deviation}%)'')
        \<notin> set (check_percentage_total pcts)) \<and>
   (\<forall>y n t found.
      fst (extract_year_from_pdf doc) = Some y \<and>
      fst (find_composition_section doc) = Some (n, t) \<and>
      fst (extract_percentages_from_text t) = Inr found \<and> found \<noteq> [] \<longrightarrow>
      fst (parse_pdf doc) =
        Inr (Some \<lparr>year = y,
                   total_assets = fst (extract_total_assets_from_table doc None),
                   percentages = fst (derive_cash found)\<rparr>) \<and>
      set (check_percentage_total (fst (derive_cash found))) \<subseteq> set (snd (parse_pdf doc)))"
proof (intro conjI allI impI)
  show "((WARNING, ''Percentage total: {total_pct}% (deviation: {deviation}%)'')
       \<in> set (check_percentage_total pcts) \<longleftrightarrow>
     flt PERCENTAGE_TOLERANCE (fabs (fsub (py_sum (map snd pcts)) (Finite 100))))"
    by (simp add: check_percentage_total_def VALIDATE_PERCENTAGE_TOTAL_def Let_def)
  show "PERCENTAGE_TOLERANCE = Finite 2" by (simp add: PERCENTAGE_TOLERANCE_def)
  show "py_sum (map snd pcts) = Finite 97.5 \<Longrightarrow>
      (WARNING, ''Percentage total: {total_pct}% (deviation: {deviation}%)'')
        \<in> set (check_percentage_total pcts)"
    by (simp add: check_percentage_total_def VALIDATE_PERCENTAGE_TOTAL_def Let_def
        PERCENTAGE_TOLERANCE_def fsub_def)
  show "py_sum (map snd pcts) = Finite 98.5 \<Longrightarrow>
      (WARNING, ''Percentage total: {total_pct}% (deviation: {deviation}%)'')
        \<notin> set (check_percentage_total pcts)"
    by (simp add: check_percentage_total_def VALIDATE_PERCENTAGE_TOTAL_def Let_def
        PERCENTAGE_TOLERANCE_def fsub_def)
next
  fix y n t found
  assume a: "fst (extract_year_from_pdf doc) = Some y \<and>
      fst (find_composition_section doc) = Some (n, t) \<and>
      fst (extract_percentages_from_text t) = Inr found \<and> found \<noteq> []"
  then have a1: "fst (extract_year_from_pdf doc) = Some y"
    and a2: "fst (find_composition_section doc) = Some (n, t)"
    and a3: "fst (extract_percentages_from_text t) = Inr found" and a4: "found \<noteq> []"
    by simp_all
  show "fst (parse_pdf doc) =
        Inr (Some \<lparr>year = y,
                   total_assets = fst (extract_total_assets_from_table doc None),
                   percentages = fst (derive_cash found)\<rparr>)"
    by (rule parse_pdf_result(1) [OF a1 a2 a3 a4])
  show "set (check_percentage_total (fst (derive_cash found))) \<subseteq> set (snd (parse_pdf doc))"
    by (rule parse_pdf_result(2) [OF a1 a2 a3 a4])
qed

text \<open>
  Sums of 97.5 and 98.5, and a report whose percentages add up to 90: the warning is in
  the log and the result is returned.
\<close>

theorem validation_advisory_witness:
  "(WARNING, ''Percentage total: {total_pct}% (deviation: {deviation}%)'')
     \<in> set (check_percentage_total [(''BONDS'', Finite 60), (''EQUITIES'', Finite 37.5)]) \<and>
   (WARNING, ''Percentage total: {total_pct}% (deviation: {deviation}%)'')
     \<notin> set (check_percentage_total [(''BONDS'', Finite 60), (''EQUITIES'', Finite 38.5)]) \<and>
   (\<exists>r. fst (parse_pdf
            \<lparr>pdf_path = ''reports/2024.pdf'',
             page_texts = [''Pension Fund'', ''composition of assets Bonds 60% Shares 30%'']\<rparr>)
          = Inr (Some r) \<and>
        percentages r = [(''BONDS'', Finite 60), (''EQUITIES'', Finite 30)]) \<and>
   (WARNING, ''Percentage total: {total_pct}% (deviation: {deviation}%)'')
     \<in> set (snd (parse_pdf
            \<lparr>pdf_path = ''reports/2024.pdf'',
             page_texts = [''Pension Fund'', ''composition of assets Bonds 60% Shares 30%'']\<rparr>))"
proof -
  let ?b = "\<lparr>pdf_path = ''reports/2024.pdf'',
             page_texts = [''Pension Fund'', ''composition of assets Bonds 60% Shares 30%'']\<rparr>"
  let ?w = "(WARNING, ''Percentage total: {total_pct}% (deviation: {deviation}%)'')"
  have s1: "py_sum (map snd [(''BONDS'', Finite 60), (''EQUITIES'', Finite 37.5)]) = Finite 97.5"
    by (simp add: py_sum_def)
  have s2: "py_sum (map snd [(''BONDS'', Finite 60), (''EQUITIES'', Finite 38.5)]) = Finite 98.5"
    by (simp add: py_sum_def)
  from validation_advisory [of "[(''BONDS'', Finite 60), (''EQUITIES'', Finite 37.5)]"] s1
  have w1: "?w \<in> set (check_percentage_total [(''BONDS'', Finite 60), (''EQUITIES'', Finite 37.5)])"
    by blast
  from validation_advisory [of "[(''BONDS'', Finite 60), (''EQUITIES'', Finite 38.5)]"] s2
  have w2: "?w \<notin> set (check_percentage_total [(''BONDS'', Finite 60), (''EQUITIES'', Finite 38.5)])"
    by blast
  have d: "flt PERCENTAGE_TOLERANCE
             (fabs (fsub (py_sum (map snd [(''BONDS'', Finite 60), (''EQUITIES'', Finite 30)]))
                (Finite 100)))"
    by (simp add: PERCENTAGE_TOLERANCE_def py_sum_def fsub_def)
  from validation_advisory [of "[(''BONDS'', Finite 60), (''EQUITIES'', Finite 30)]" ?b] d
  have w3: "?w \<in> set (check_percentage_total [(''BONDS'', Finite 60), (''EQUITIES'', Finite 30)])"
    by blast
  from validation_advisory [of "[]" ?b] sample_document_year sample_document_section
    sample_page_percentages
  have r: "fst (parse_pdf ?b) =
        Inr (Some \<lparr>year = ''2024'',
                   total_assets = fst (extract_total_assets_from_table ?b None),
                   percentages = fst (derive_cash [(''BONDS'', Finite 60), (''EQUITIES'', Finite 30)])\<rparr>) \<and>
      set (check_percentage_total (fst (derive_cash [(''BONDS'', Finite 60), (''EQUITIES'', Finite 30)])))
        \<subseteq> set (snd (parse_pdf ?b))"
    by blast
  from r w3 have "?w \<in> set (snd (parse_pdf ?b))" by (auto simp: sample_derive_cash)
  with r w1 w2 show ?thesis by (simp add: sample_derive_cash)
qed

section \<open>Matching of asset names\<close>

lemma match_literal_ignorecase_iff:
  "match_literal_ignorecase p s = Some r \<longleftrightarrow> (\<exists>x. s = x @ r \<and> py_lower x = py_lower p)"
proof (induction p s rule: match_literal_ignorecase.induct)
  case (1 s)
  then show ?case by (auto simp: py_lower_def)
next
  case (2 p ps)
  then show ?case by (auto simp: py_lower_def)
next
  case (3 p ps c cs)
  show ?case
  proof (cases "lower_char c = lower_char p")
    case True
    have "(\<exists>x. cs = x @ r \<and> py_lower x = py_lower ps) \<longleftrightarrow>
          (\<exists>x. c # cs = x @ r \<and> py_lower x = py_lower (p # ps))" (is "?l \<longleftrightarrow> ?r")
    proof
      assume ?l
      then obtain x where "cs = x @ r" "py_lower x = py_lower ps" by blast
      with True have "c # cs = (c # x) @ r \<and> py_lower (c # x) = py_lower (p # ps)"
        by (simp add: py_lower_def)
      then show ?r by blast
    next
      assume ?r
      then obtain x where x: "c # cs = x @ r" "py_lower x = py_lower (p # ps)" by blast
      then obtain x' where "x = c # x'" by (cases x) (auto simp: py_lower_def)
      with x have "cs = x' @ r \<and> py_lower x' = py_lower ps" by (simp add: py_lower_def)
      then show ?l by blast
    qed
    with True 3 show ?thesis by simp
  next
    case False
    have "\<not> (\<exists>x. c # cs = x @ r \<and> py_lower x = py_lower (p # ps))"
    proof
      assume "\<exists>x. c # cs = x @ r \<and> py_lower x = py_lower (p # ps)"
      then obtain x where x: "c # cs = x @ r" "py_lower x = py_lower (p # ps)" by blast
      then obtain x' where "x = c # x'" by (cases x) (auto simp: py_lower_def)
      with x False show False by (simp add: py_lower_def)
    qed
    with False show ?thesis by simp
  qed
qed

lemma class_run_split:
  assumes "\<forall>c \<in> set run. P c" and "rest = [] \<or> \<not> P (hd rest)"
  shows "takeWhile P (run @ rest) = run" and "dropWhile P (run @ rest) = rest"
proof -
  from assms(2) have t: "takeWhile P rest = []" and d: "dropWhile P rest = rest"
    by (cases rest; simp)+
  from assms(1) show "takeWhile P (run @ rest) = run" by (simp add: takeWhile_append2 t)
  from assms(1) show "dropWhile P (run @ rest) = rest" by (simp add: dropWhile_append2 d)
qed

lemma match_asset_percentage_iff:
  "match_asset_percentage alias p s \<noteq> None \<longleftrightarrow>
     (\<exists>x ws ds post.
        s = x @ ws @ ds @ ''%'' @ post \<and> py_lower x = py_lower alias \<and>
        ws \<noteq> [] \<and> list_all py_isspace ws \<and> ds \<noteq> [] \<and> list_all py_isdecimal ds)"
  (is "?l \<longleftrightarrow> ?r")
proof
  assume ?l
  then obtain r where r: "match_literal_ignorecase alias s = Some r"
    by (auto simp: match_asset_percentage_def split: option.splits)
  let ?ws = "takeWhile py_isspace r" and ?r1 = "dropWhile py_isspace r"
  let ?ds = "takeWhile py_isdecimal ?r1" and ?r2 = "dropWhile py_isdecimal ?r1"
  from \<open>?l\<close> r have c: "?ws \<noteq> []" "?ds \<noteq> []" "startswith ?r2 ''%''"
    by (auto simp: match_asset_percentage_def Let_def split: if_splits)
  from c(3) obtain post where post: "?r2 = ''%'' @ post" by (auto simp: startswith_iff)
  from r obtain x where x: "s = x @ r" "py_lower x = py_lower alias"
    by (auto simp: match_literal_ignorecase_iff)
  have "r = ?ws @ ?r1" by simp
  also have "?r1 = ?ds @ ?r2" by simp
  finally have "s = x @ ?ws @ ?ds @ ''%'' @ post" using x(1) post by simp
  moreover have "list_all py_isspace ?ws" "list_all py_isdecimal ?ds"
    by (auto simp: list_all_iff dest: set_takeWhileD)
  ultimately show ?r using x(2) c(1,2) by blast
next
  assume ?r
  then obtain x ws ds post where d: "s = x @ ws @ ds @ ''%'' @ post"
    "py_lower x = py_lower alias" "ws \<noteq> []" "list_all py_isspace ws" "ds \<noteq> []"
    "list_all py_isdecimal ds" by blast
  from d(1,2) have m: "match_literal_ignorecase alias s = Some (ws @ ds @ ''%'' @ post)"
    by (auto simp: match_literal_ignorecase_iff)
  from d(5,6) have "py_isdecimal (hd ds)" by (cases ds) auto
  then have h: "\<not> py_isspace (hd (ds @ ''%'' @ post))" using d(5) by (simp add: digit_classes)
  have sp: "\<forall>c \<in> set ws. py_isspace c" using d(4) by (simp add: list_all_iff)
  have w: "takeWhile py_isspace (ws @ ds @ ''%'' @ post) = ws"
    "dropWhile py_isspace (ws @ ds @ ''%'' @ post) = ds @ ''%'' @ post"
    using class_run_split [OF sp, of "ds @ ''%'' @ post"] h by blast+
  have dg: "\<forall>c \<in> set ds. py_isdecimal c" using d(6) by (simp add: list_all_iff)
  have "\<not> py_isdecimal (hd (''%'' @ post))" by (simp add: py_isdecimal_def)
  then have g: "takeWhile py_isdecimal (ds @ ''%'' @ post) = ds"
    "dropWhile py_isdecimal (ds @ ''%'' @ post) = ''%'' @ post"
    using class_run_split [OF dg, of "''%'' @ post"] by blast+
  show ?l
    unfolding match_asset_percentage_def m option.case Let_def w g
    using d(3,5) by simp
qed

lemma re_search_iff:
  assumes "\<And>p s. m p s = m None s"
  shows "re_search m prev s \<noteq> None \<longleftrightarrow> (\<exists>pre post. s = pre @ post \<and> m None post \<noteq> None)"
proof (induction s arbitrary: prev)
  case Nil
  then show ?case using assms [of prev "[]"] by simp
next
  case (Cons c cs)
  have "(\<exists>pre post. c # cs = pre @ post \<and> m None post \<noteq> None) \<longleftrightarrow>
        m None (c # cs) \<noteq> None \<or> (\<exists>pre post. cs = pre @ post \<and> m None post \<noteq> None)"
    (is "?l \<longleftrightarrow> ?r")
  proof
    assume ?l
    then obtain pre post where e: "c # cs = pre @ post" "m None post \<noteq> None" by blast
    show ?r
    proof (cases pre)
      case Nil
      with e show ?thesis by simp
    next
      case (Cons a pre')
      with e have "cs = pre' @ post" by simp
      with e(2) show ?thesis by blast
    qed
  next
    assume ?r
    then show ?l
    proof
      assume "m None (c # cs) \<noteq> None"
      then have "c # cs = [] @ (c # cs) \<and> m None (c # cs) \<noteq> None" by simp
      then show ?l by blast
    next
      assume "\<exists>pre post. cs = pre @ post \<and> m None post \<noteq> None"
      then obtain pre post where "cs = pre @ post" "m None post \<noteq> None" by blast
      then have "c # cs = (c # pre) @ post \<and> m None post \<noteq> None" by simp
      then show ?l by blast
    qed
  qed
  with Cons [of "Some c"] assms [of prev "c # cs"] show ?case
    by (auto split: option.splits)
qed

lemma search_alias_iff:
  "re_search (match_asset_percentage alias) None text \<noteq> None \<longleftrightarrow> alias_occurs alias text"
proof -
  have i: "\<And>p s. match_asset_percentage alias p s = match_asset_percentage alias None s"
    by (simp add: match_asset_percentage_def)
  have "re_search (match_asset_percentage alias) None text \<noteq> None \<longleftrightarrow>
        (\<exists>pre post. text = pre @ post \<and> match_asset_percentage alias None post \<noteq> None)"
    by (rule re_search_iff [where m = "match_asset_percentage alias", OF i])
  also have "\<dots> \<longleftrightarrow> alias_occurs alias text"
    unfolding match_asset_percentage_iff alias_occurs_def by blast
  finally show ?thesis .
qed

lemma first_name_match_iff:
  "first_name_match names text \<noteq> None \<longleftrightarrow> (\<exists>a \<in> set names. alias_occurs a text)"
  by (induction names) (auto simp: search_alias_iff [symmetric] split: option.splits)

text \<open>
  C4, as stated, fails: the pattern has no word boundary, so "Eurobonds 27%" is a match for
  the name "Bonds", and the extractor reports 27 for BONDS.
\<close>

theorem alias_not_whole_word_counterexample:
  "re_search (match_asset_percentage ''Bonds'') None ''Eurobonds 27%'' = Some ''27'' \<and>
   fst (extract_percentages_from_text ''Eurobonds 27%'') = Inr [(''BONDS'', Finite 27)]"
  by (simp add: extract_percentages_from_text_def PDF_ASSET_NAMES_def match_asset_percentage_def
      eval_chars eval_float)

text \<open>
  C4, amended. For every text and every asset name, the search finds the name exactly when
  the text holds, at any position, the characters of the name in any case (each character
  taken literally), followed by at least one whitespace character, at least one digit and a
  percent sign; a class is found when one of its names is; and what stands before or after
  the occurrence, a longer word included, does not matter.
\<close>

theorem alias_matched_anywhere:
  "(re_search (match_asset_percentage alias) None text \<noteq> None \<longleftrightarrow> alias_occurs alias text) \<and>
   (first_name_match names text \<noteq> None \<longleftrightarrow> (\<exists>a \<in> set names. alias_occurs a text)) \<and>
   (alias_occurs alias text \<longrightarrow> alias_occurs alias (before @ text @ after))"
proof (intro conjI impI)
  show "re_search (match_asset_percentage alias) None text \<noteq> None \<longleftrightarrow> alias_occurs alias text"
    by (rule search_alias_iff)
  show "first_name_match names text \<noteq> None \<longleftrightarrow> (\<exists>a \<in> set names. alias_occurs a text)"
    by (rule first_name_match_iff)
  assume "alias_occurs alias text"
  then obtain pre x ws ds post where
    d: "text = pre @ x @ ws @ ds @ ''%'' @ post" "py_lower x = py_lower alias"
      "ws \<noteq> []" "list_all py_isspace ws" "ds \<noteq> []" "list_all py_isdecimal ds"
    unfolding alias_occurs_def by blast
  from d(1) have "before @ text @ after = (before @ pre) @ x @ ws @ ds @ ''%'' @ (post @ after)"
    by simp
  with d(2-6) show "alias_occurs alias (before @ text @ after)"
    unfolding alias_occurs_def by blast
qed

text \<open>
  "Real estate" is found inside "Unreal Estate   5%", also within a longer text; "Bonds" is
  not found in "Bonds: 27%", where a colon follows the name.
\<close>

theorem alias_matched_anywhere_witness:
  "alias_occurs ''Real estate'' ''Unreal Estate   5%'' \<and>
   \<not> alias_occurs ''Bonds'' ''Bonds: 27%'' \<and>
   alias_occurs ''Real estate'' (''Funds: '' @ ''Unreal Estate   5%'' @ '' (2024)'')"
proof -
  have a: "re_search (match_asset_percentage ''Real estate'') None ''Unreal Estate   5%'' \<noteq> None"
    by (simp add: match_asset_percentage_def eval_chars)
  have b: "\<not> re_search (match_asset_percentage ''Bonds'') None ''Bonds: 27%'' \<noteq> None"
    by (simp add: match_asset_percentage_def eval_chars)
  from alias_matched_anywhere [of "''Real estate''" "''Unreal Estate   5%''" "[]" "''Funds: ''"
      "'' (2024)''"] a
  have "alias_occurs ''Real estate'' ''Unreal Estate   5%'' \<and>
        alias_occurs ''Real estate'' (''Funds: '' @ ''Unreal Estate   5%'' @ '' (2024)'')"
    by blast
  moreover from alias_matched_anywhere [of "''Bonds''" "''Bonds: 27%''" "[]" "[]" "[]"] b
  have "\<not> alias_occurs ''Bonds'' ''Bonds: 27%''" by blast
  ultimately show ?thesis by blast
qed

section \<open>Values and keys of the extracted percentages\<close>




end
